theory Spec2Isabelle
  imports Complex_Main "HOL-Library.Word" "HOL-Library.Code_Target_Nat"
begin

unbundle bit_operations_syntax

section \<open>The i.MX6 MMDC profiling tool: data model\<close>

text \<open>
  The program maps the register pages of the two memory controllers (MMDC0, MMDC1)
  of an i.MX6 through \<^verbatim>\<open>/dev/mem\<close>, arms their profiling counters, and then
  loops: start, sleep, stop, print. This theory embeds \<^verbatim>\<open>imx6_ddrstat.c\<close>
  function by function; global variables become the fields of one state record, the
  text written to standard output is the field \<open>out\<close>.
\<close>

type_synonym u32 = "32 word"
type_synonym u16 = "16 word"

subsection \<open>Register offsets and control bits\<close>

definition MMDC0_BASE :: nat where "MMDC0_BASE = 0x021b0000"
definition MMDC1_BASE :: nat where "MMDC1_BASE = 0x021b4000"

definition MMDC_MADPCR0 :: nat where "MMDC_MADPCR0 = 0x0410"
definition MMDC_MADPCR1 :: nat where "MMDC_MADPCR1 = 0x0414"
definition MMDC_MADPSR0 :: nat where "MMDC_MADPSR0 = 0x0418"
definition MMDC_MADPSR1 :: nat where "MMDC_MADPSR1 = 0x041c"
definition MMDC_MADPSR2 :: nat where "MMDC_MADPSR2 = 0x0420"
definition MMDC_MADPSR3 :: nat where "MMDC_MADPSR3 = 0x0424"
definition MMDC_MADPSR4 :: nat where "MMDC_MADPSR4 = 0x0428"
definition MMDC_MADPSR5 :: nat where "MMDC_MADPSR5 = 0x042c"

definition MADPCR0_DBG_EN :: u32 where "MADPCR0_DBG_EN = push_bit 0 1"
definition MADPCR0_DBG_RST :: u32 where "MADPCR0_DBG_RST = push_bit 1 1"
definition MADPCR0_PRF_FRZ :: u32 where "MADPCR0_PRF_FRZ = push_bit 2 1"
definition MADPCR0_CYC_OVF :: u32 where "MADPCR0_CYC_OVF = push_bit 3 1"

definition MADPCR1_PRF_AXI_ID_SHIFT :: nat where "MADPCR1_PRF_AXI_ID_SHIFT = 0"
definition MADPCR1_PRF_AXI_ID_MASK_SHIFT :: nat where "MADPCR1_PRF_AXI_ID_MASK_SHIFT = 16"

subsection \<open>Counter snapshots\<close>

record mmdc_stats =
  cycles :: u32
  busy_cycles :: u32
  read_accesses :: u32
  write_accesses :: u32
  read_bytes :: u32
  write_bytes :: u32

definition zero_stats :: mmdc_stats where
  "zero_stats = \<lparr>cycles = 0, busy_cycles = 0, read_accesses = 0, write_accesses = 0,
     read_bytes = 0, write_bytes = 0\<rparr>"

section \<open>Formatting\<close>

subsection \<open>What \<^verbatim>\<open>printf\<close> does with the conversions the program uses\<close>

text \<open>
  \<^verbatim>\<open>%u\<close> and \<^verbatim>\<open>%lu\<close>: the decimal digits of an unsigned value, most
  significant first, no padding.
\<close>

definition digit :: "nat \<Rightarrow> char" where
  "digit d = char_of (48 + d)"

function dec :: "nat \<Rightarrow> string" where
  "dec n = (if n < 10 then [digit n] else dec (n div 10) @ [digit (n mod 10)])"
  by pat_completeness auto
termination
  by (relation "measure (\<lambda>n. n)") auto

declare dec.simps [simp del]

text \<open>
  The busy percentage is the C expression
  \<^verbatim>\<open>(double)100.0 * st->busy_cycles / st->cycles\<close>: both counters are converted
  to \<^verbatim>\<open>double\<close> (exactly, they are below \<open>2^32\<close>), the product
  \<open>100 * busy_cycles\<close> is below \<open>2^39\<close> and therefore exact, and the quotient is
  one IEEE 754 binary64 division, rounded to nearest, ties to even. The division
  does not trap: a zero divisor gives an infinity, or a NaN when the dividend is
  zero too.

  A finite non-negative double is \<open>Fin m k\<close>, the number \<open>m / 2^k\<close>. For the
  quotients that occur here (either 0 or between \<open>100 / 2^32\<close> and \<open>2^39\<close>) the
  binary exponent is always negative and the number is normal, so \<open>k\<close> is the
  least exponent with \<open>2^52 \<le> n * 2^k / d\<close> and \<open>m\<close> is that scaled quotient
  rounded to an integer.
\<close>

datatype fp = NaN | Inf | Fin nat nat

fun bitlen_nat :: "nat \<Rightarrow> nat" where
  "bitlen_nat n = (if n = 0 then 0 else Suc (bitlen_nat (n div 2)))"

declare bitlen_nat.simps [simp del]

definition round_half_even :: "nat \<Rightarrow> nat \<Rightarrow> nat" where
  "round_half_even n d =
     (let q = n div d; r = n mod d
      in if d < 2 * r \<or> (2 * r = d \<and> odd q) then q + 1 else q)"

definition fp_div :: "nat \<Rightarrow> nat \<Rightarrow> fp" where
  "fp_div n d =
     (if d = 0 then (if n = 0 then NaN else Inf)
      else if n = 0 then Fin 0 0
      else
        let k0 = 52 + bitlen_nat d - bitlen_nat n;
            k = (if d * 2 ^ 52 \<le> n * 2 ^ k0 then k0 else k0 + 1)
        in Fin (round_half_even (n * 2 ^ k) d) k)"

text \<open>
  \<^verbatim>\<open>%.2f\<close> prints the exact value of the double rounded to two decimals
  (to nearest, ties to even): the integer part, a point, two digits. An infinity
  prints as \<^verbatim>\<open>inf\<close>, a NaN as \<^verbatim>\<open>nan\<close> (the ARM VFP default NaN of
  \<open>0.0 / 0.0\<close> has a clear sign bit).
\<close>

definition fmt_2f :: "fp \<Rightarrow> string" where
  "fmt_2f x =
     (case x of
        NaN \<Rightarrow> ''nan''
      | Inf \<Rightarrow> ''inf''
      | Fin m k \<Rightarrow>
          (let h = round_half_even (100 * m) (2 ^ k)
           in dec (h div 100) @ ''.'' @ [digit (h mod 100 div 10), digit (h mod 10)]))"

definition busy_percent :: "mmdc_stats \<Rightarrow> string" where
  "busy_percent st = fmt_2f (fp_div (100 * unat (busy_cycles st)) (unat (cycles st)))"

subsection \<open>Integer arithmetic of the formatter\<close>

text \<open>
  The locals of \<^verbatim>\<open>mmdc_print_pretty\<close> are \<^verbatim>\<open>unsigned long\<close>. Its width is
  fixed by the ABI the program is compiled for, not by the source: 32 bits on the
  i.MX6 itself (ARMv7-A, ILP32), 64 bits on an LP64 machine. Values are naturals
  below \<open>2 ^ ulong_bits\<close>; addition and subtraction wrap around. An integer
  division by zero raises SIGFPE and ends the process: \<open>None\<close>.
\<close>

datatype abi = ILP32 | LP64

fun ulong_bits :: "abi \<Rightarrow> nat" where
  "ulong_bits ILP32 = 32"
| "ulong_bits LP64 = 64"

definition ulong_of_u32 :: "abi \<Rightarrow> u32 \<Rightarrow> nat" where
  "ulong_of_u32 abi x = unat x mod 2 ^ ulong_bits abi"

definition ulong_add :: "abi \<Rightarrow> nat \<Rightarrow> nat \<Rightarrow> nat" where
  "ulong_add abi a b = (a + b) mod 2 ^ ulong_bits abi"

definition ulong_sub :: "abi \<Rightarrow> nat \<Rightarrow> nat \<Rightarrow> nat" where
  "ulong_sub abi a b =
     (a + 2 ^ ulong_bits abi - b mod 2 ^ ulong_bits abi) mod 2 ^ ulong_bits abi"

definition ulong_div :: "nat \<Rightarrow> nat \<Rightarrow> nat option" where
  "ulong_div a b = (if b = 0 then None else Some (a div b))"

text \<open>
  The two scaling loops of \<^verbatim>\<open>mmdc_print_pretty\<close> are the same loop on
  \<open>(read_count, read_unit)\<close> and on \<open>(write_count, write_unit)\<close>.
\<close>

function scale_loop :: "nat \<Rightarrow> nat \<Rightarrow> nat \<times> nat" where
  "scale_loop count u =
     (if count > 1023 \<and> u < 3 then scale_loop (count div 1024) (u + 1) else (count, u))"
  by pat_completeness auto
termination
  by (relation "measure (\<lambda>(count, u). 3 - u)") auto

declare scale_loop.simps [simp del]

definition unit :: "string list" where
  "unit = [''B'', ''KiB'', ''MiB'', ''GiB'']"

text \<open>
  The mean size of an access, as the source computes it: zero unless the access
  count is non-zero, else \<open>(count + accesses - 1) / accesses\<close> in
  \<^verbatim>\<open>unsigned long\<close> arithmetic. The source has these lines once for reads and
  once for writes.
\<close>

definition access_size :: "abi \<Rightarrow> u32 \<Rightarrow> u32 \<Rightarrow> nat option" where
  "access_size abi bytes accesses =
     (let count = ulong_of_u32 abi bytes
      in if accesses \<noteq> 0
         then ulong_div
                (ulong_sub abi
                   (ulong_add abi count (ulong_of_u32 abi accesses)) 1)
                (ulong_of_u32 abi accesses)
         else Some 0)"

subsection \<open>\<^verbatim>\<open>mmdc_print_pretty\<close> and \<^verbatim>\<open>mmdc_print\<close>\<close>

text \<open>Both return the text they print, or \<open>None\<close> when the process is killed.\<close>

definition mmdc_print_pretty :: "abi \<Rightarrow> string \<Rightarrow> mmdc_stats \<Rightarrow> string option" where
  "mmdc_print_pretty abi tag st =
     (case access_size abi (read_bytes st) (read_accesses st) of
        None \<Rightarrow> None
      | Some read_size \<Rightarrow>
     (case access_size abi (write_bytes st) (write_accesses st) of
        None \<Rightarrow> None
      | Some write_size \<Rightarrow>
     (case scale_loop (ulong_of_u32 abi (read_bytes st)) 0 of
        (read_count, read_unit) \<Rightarrow>
     (case scale_loop (ulong_of_u32 abi (write_bytes st)) 0 of
        (write_count, write_unit) \<Rightarrow>
          Some (tag @ '' '' @ busy_percent st @ ''% busy ''
                @ dec read_count @ '' '' @ unit ! read_unit
                @ '' reads ('' @ dec read_size @ '' B / access) ''
                @ dec write_count @ '' '' @ unit ! write_unit
                @ '' writes ('' @ dec write_size @ '' B / access)'')))))"

definition mmdc_print :: "abi \<Rightarrow> bool \<Rightarrow> string \<Rightarrow> mmdc_stats \<Rightarrow> string option" where
  "mmdc_print abi pretty_flag tag st =
     (if pretty_flag then mmdc_print_pretty abi tag st
      else Some (tag @ '' '' @ busy_percent st @ ''% busy ''
                 @ dec (unat (read_accesses st)) @ '' reads (''
                 @ dec (unat (read_bytes st)) @ '' bytes) ''
                 @ dec (unat (write_accesses st)) @ '' writes (''
                 @ dec (unat (write_bytes st)) @ '' bytes)''))"

section \<open>The register windows\<close>

text \<open>
  A \<open>window\<close> is one mapped register page, seen through the
  \<^verbatim>\<open>volatile uint32_t *\<close> the source uses: \<open>regs\<close> holds the device's
  registers by 32-bit word index, \<open>trace\<close> every access the program made, in
  program order. The page is device memory, not RAM: \<open>hw_store\<close> is what the
  device makes of a store (a write-one-to-clear flag does not keep the value
  written), \<open>hw_load\<close> how the registers have moved on by the time of the next
  load (the counters run while the program sleeps). The program never changes
  either of them.
\<close>

type_synonym regs = "nat \<Rightarrow> u32"

datatype access = Load nat u32 | Store nat u32

record window =
  regs :: regs
  trace :: "access list"
  hw_store :: "nat \<Rightarrow> u32 \<Rightarrow> regs \<Rightarrow> regs"
  hw_load :: "regs \<Rightarrow> regs"

text \<open>A page that behaves like plain memory.\<close>

definition ram_window :: "regs \<Rightarrow> window" where
  "ram_window r = \<lparr>regs = r, trace = [], hw_store = (\<lambda>i v r. r(i := v)), hw_load = (\<lambda>r. r)\<rparr>"

text \<open>\<^verbatim>\<open>mmdc[i]\<close> as an rvalue, \<^verbatim>\<open>mmdc[i] = v\<close>, \<^verbatim>\<open>mmdc[i] |= v\<close> and
  \<^verbatim>\<open>mmdc[i] &= v\<close>; the last two are a load followed by a store.\<close>

definition reg_read :: "window \<Rightarrow> nat \<Rightarrow> u32 \<times> window" where
  "reg_read w i =
     (let r = hw_load w (regs w)
      in (r i, w\<lparr>regs := r, trace := trace w @ [Load i (r i)]\<rparr>))"

definition reg_write :: "window \<Rightarrow> nat \<Rightarrow> u32 \<Rightarrow> window" where
  "reg_write w i v = w\<lparr>regs := hw_store w i v (regs w), trace := trace w @ [Store i v]\<rparr>"

definition reg_or :: "window \<Rightarrow> nat \<Rightarrow> u32 \<Rightarrow> window" where
  "reg_or w i v = (case reg_read w i of (x, w') \<Rightarrow> reg_write w' i (x OR v))"

definition reg_and :: "window \<Rightarrow> nat \<Rightarrow> u32 \<Rightarrow> window" where
  "reg_and w i v = (case reg_read w i of (x, w') \<Rightarrow> reg_write w' i (x AND v))"

text \<open>The word index of a byte offset: \<^verbatim>\<open>offset >> 2\<close>.\<close>

definition idx :: "nat \<Rightarrow> nat" where
  "idx offset = drop_bit 2 offset"

section \<open>Program state\<close>

record state =
  mmdc0 :: "window option"
  mmdc1 :: "window option"
  mmdc0_end :: mmdc_stats
  mmdc1_end :: mmdc_stats
  axi_id :: u16
  axi_id_mask :: u16
  pretty :: bool
  out :: string

text \<open>The globals as C initialises them: null pointers, zeros, \<^verbatim>\<open>false\<close>.\<close>

definition init_state :: state where
  "init_state = \<lparr>mmdc0 = None, mmdc1 = None, mmdc0_end = zero_stats, mmdc1_end = zero_stats,
     axi_id = 0, axi_id_mask = 0, pretty = False, out = []\<rparr>"

definition printf :: "string \<Rightarrow> state \<Rightarrow> state" where
  "printf text s = s\<lparr>out := out s @ text\<rparr>"

text \<open>
  What the program asks of the operating system: \<open>dev_mem_fd\<close> is the result of
  \<^verbatim>\<open>open("/dev/mem", O_RDWR)\<close> (\<open>-1\<close> on failure), \<open>mmap fd base\<close> the page
  mapped at physical address \<open>base\<close>, \<open>None\<close> for \<^verbatim>\<open>MAP_FAILED\<close>.
\<close>

record system =
  dev_mem_fd :: int
  mmap :: "int \<Rightarrow> nat \<Rightarrow> window option"

section \<open>The counter protocol\<close>

text \<open>
  \<^verbatim>\<open>mmdc_init\<close>: map the page; if that fails return null, else make the four
  stores and return the pointer. In the last store the two \<^verbatim>\<open>unsigned short\<close>
  globals are promoted and shifted; what reaches the register is the 32-bit pattern
  with the mask in the upper half-word and the identifier in the lower.
\<close>

definition mmdc_init :: "system \<Rightarrow> state \<Rightarrow> int \<Rightarrow> nat \<Rightarrow> window option" where
  "mmdc_init sys s fd base =
     (case mmap sys fd base of
        None \<Rightarrow> None
      | Some mmdc \<Rightarrow>
          (let mmdc = reg_write mmdc (idx MMDC_MADPCR0) 0;
               mmdc = reg_write mmdc (idx MMDC_MADPCR0) (MADPCR0_DBG_RST OR MADPCR0_CYC_OVF);
               mmdc = reg_write mmdc (idx MMDC_MADPCR0) (MADPCR0_DBG_EN OR MADPCR0_PRF_FRZ);
               mmdc = reg_write mmdc (idx MMDC_MADPCR1)
                        (push_bit MADPCR1_PRF_AXI_ID_MASK_SHIFT (ucast (axi_id_mask s))
                         OR push_bit MADPCR1_PRF_AXI_ID_SHIFT (ucast (axi_id s)))
           in Some mmdc))"

definition mmdc_read :: "window \<Rightarrow> mmdc_stats \<times> window" where
  "mmdc_read mmdc =
     (case reg_read mmdc (idx MMDC_MADPSR0) of (c, mmdc) \<Rightarrow>
      case reg_read mmdc (idx MMDC_MADPSR1) of (b, mmdc) \<Rightarrow>
      case reg_read mmdc (idx MMDC_MADPSR2) of (ra, mmdc) \<Rightarrow>
      case reg_read mmdc (idx MMDC_MADPSR3) of (wa, mmdc) \<Rightarrow>
      case reg_read mmdc (idx MMDC_MADPSR4) of (rb, mmdc) \<Rightarrow>
      case reg_read mmdc (idx MMDC_MADPSR5) of (wb, mmdc) \<Rightarrow>
        (\<lparr>cycles = c, busy_cycles = b, read_accesses = ra, write_accesses = wa,
          read_bytes = rb, write_bytes = wb\<rparr>, mmdc))"

definition perf_init :: "system \<Rightarrow> state \<Rightarrow> int \<times> state" where
  "perf_init sys s =
     (let fd = dev_mem_fd sys
      in if fd = - 1 then (- 1, s)
         else
           let s = s\<lparr>mmdc0 := mmdc_init sys s fd MMDC0_BASE\<rparr>;
               s = s\<lparr>mmdc1 := mmdc_init sys s fd MMDC1_BASE\<rparr>;
               err = (if mmdc0 s = None \<or> mmdc1 s = None then - 1 else 0)
           in (err, s))"

text \<open>The body of each \<^verbatim>\<open>if (mmdc)\<close> block of \<^verbatim>\<open>perf_start\<close>; the two blocks
  are the same code.\<close>

definition start_block :: "window \<Rightarrow> window" where
  "start_block mmdc =
     (let mmdc = reg_or mmdc (idx MMDC_MADPCR0) (MADPCR0_DBG_RST OR MADPCR0_CYC_OVF);
          mmdc = reg_and mmdc (idx MMDC_MADPCR0) (NOT (MADPCR0_DBG_RST OR MADPCR0_PRF_FRZ))
      in mmdc)"

definition perf_start :: "state \<Rightarrow> state" where
  "perf_start s =
     (let s = (case mmdc0 s of None \<Rightarrow> s | Some mmdc \<Rightarrow> s\<lparr>mmdc0 := Some (start_block mmdc)\<rparr>);
          s = (case mmdc1 s of None \<Rightarrow> s | Some mmdc \<Rightarrow> s\<lparr>mmdc1 := Some (start_block mmdc)\<rparr>)
      in s)"

definition perf_stop :: "state \<Rightarrow> state" where
  "perf_stop s =
     (let s =
        (case mmdc0 s of
           None \<Rightarrow> s
         | Some mmdc \<Rightarrow>
             (let mmdc = reg_or mmdc (idx MMDC_MADPCR0) MADPCR0_PRF_FRZ
              in case reg_read mmdc (idx MMDC_MADPCR0) of (v, mmdc) \<Rightarrow>
                 let s = (if v AND MADPCR0_CYC_OVF \<noteq> 0
                          then printf ''overflow 0!\<newline>'' s else s)
                 in case mmdc_read mmdc of (st, mmdc) \<Rightarrow>
                    s\<lparr>mmdc0 := Some mmdc, mmdc0_end := st\<rparr>));
          s =
        (case mmdc1 s of
           None \<Rightarrow> s
         | Some mmdc \<Rightarrow>
             (let mmdc = reg_or mmdc (idx MMDC_MADPCR0) MADPCR0_PRF_FRZ
              in case reg_read mmdc (idx MMDC_MADPCR0) of (v, mmdc) \<Rightarrow>
                 let s = (if v AND MADPCR0_CYC_OVF \<noteq> 0
                          then printf ''overflow 1!\<newline>'' s else s)
                 in case mmdc_read mmdc of (st, mmdc) \<Rightarrow>
                    s\<lparr>mmdc1 := Some mmdc, mmdc1_end := st\<rparr>))
      in s)"

text \<open>\<^verbatim>\<open>perf_print\<close>: \<open>None\<close> when a formatter call is killed.\<close>

definition perf_print :: "abi \<Rightarrow> state \<Rightarrow> state option" where
  "perf_print abi s =
     (if mmdc0 s \<noteq> None then
        (case mmdc_print abi (pretty s) ''MMDC0'' (mmdc0_end s) of
           None \<Rightarrow> None
         | Some line0 \<Rightarrow>
             (let s = printf line0 s
              in if cycles (mmdc1_end s) \<noteq> 0 then
                   (let s = printf [CHR 0x09] s
                    in case mmdc_print abi (pretty s) ''MMDC1'' (mmdc1_end s) of
                         None \<Rightarrow> None
                       | Some line1 \<Rightarrow> Some (printf ''\<newline>'' (printf line1 s)))
                 else Some (printf ''\<newline>'' s)))
      else Some s)"

section \<open>The AXI filter table\<close>

text \<open>\<^verbatim>\<open>struct axi_filter\<close>; a null \<^verbatim>\<open>name\<close> is \<open>None\<close>. The fields carry the
  prefix \<open>filter_\<close>, the globals of the same names keep theirs.\<close>

record axi_filter =
  filter_name :: "string option"
  filter_axi_id_mask :: u16
  filter_axi_id :: u16

text \<open>The array \<^verbatim>\<open>filters\<close>, with the empty entry that ends it.\<close>

definition filters :: "axi_filter list" where
  "filters = [
     \<lparr>filter_name = Some ''arm-s0'',    filter_axi_id_mask = 0b11100000000111, filter_axi_id = 0b00000000000000\<rparr>,
     \<lparr>filter_name = Some ''arm-s1'',    filter_axi_id_mask = 0b11100000000111, filter_axi_id = 0b00000000000001\<rparr>,
     \<lparr>filter_name = Some ''ipu1'',      filter_axi_id_mask = 0b11111111100111, filter_axi_id = 0b00000000000100\<rparr>,
     \<lparr>filter_name = Some ''ipu1-0'',    filter_axi_id_mask = 0b11111111111111, filter_axi_id = 0b00000000000100\<rparr>,
     \<lparr>filter_name = Some ''ipu1-1'',    filter_axi_id_mask = 0b11111111111111, filter_axi_id = 0b00000000001100\<rparr>,
     \<lparr>filter_name = Some ''ipu1-2'',    filter_axi_id_mask = 0b11111111111111, filter_axi_id = 0b00000000010100\<rparr>,
     \<lparr>filter_name = Some ''ipu1-3'',    filter_axi_id_mask = 0b11111111111111, filter_axi_id = 0b00000000011100\<rparr>,
     \<lparr>filter_name = Some ''ipu2'',      filter_axi_id_mask = 0b11111111100111, filter_axi_id = 0b00000000000101\<rparr>,
     \<lparr>filter_name = Some ''ipu2-0'',    filter_axi_id_mask = 0b11111111111111, filter_axi_id = 0b00000000000101\<rparr>,
     \<lparr>filter_name = Some ''ipu2-1'',    filter_axi_id_mask = 0b11111111111111, filter_axi_id = 0b00000000001101\<rparr>,
     \<lparr>filter_name = Some ''ipu2-2'',    filter_axi_id_mask = 0b11111111111111, filter_axi_id = 0b00000000010101\<rparr>,
     \<lparr>filter_name = Some ''ipu2-3'',    filter_axi_id_mask = 0b11111111111111, filter_axi_id = 0b00000000011101\<rparr>,
     \<lparr>filter_name = Some ''gpu3d-a'',   filter_axi_id_mask = 0b11110000111111, filter_axi_id = 0b00000000000010\<rparr>,
     \<lparr>filter_name = Some ''gpu2d-a'',   filter_axi_id_mask = 0b11110000111111, filter_axi_id = 0b00000000001010\<rparr>,
     \<lparr>filter_name = Some ''vdoa'',      filter_axi_id_mask = 0b11111100111111, filter_axi_id = 0b00000000010010\<rparr>,
     \<lparr>filter_name = Some ''openvg'',    filter_axi_id_mask = 0b11110000111111, filter_axi_id = 0b00000000100010\<rparr>,
     \<lparr>filter_name = Some ''hdmi'',      filter_axi_id_mask = 0b11111111111111, filter_axi_id = 0b00000100011010\<rparr>,
     \<lparr>filter_name = Some ''sdma-brst'', filter_axi_id_mask = 0b11111111111111, filter_axi_id = 0b00000101011010\<rparr>,
     \<lparr>filter_name = Some ''sdma-per'',  filter_axi_id_mask = 0b11111111111111, filter_axi_id = 0b00000110011010\<rparr>,
     \<lparr>filter_name = Some ''caam'',      filter_axi_id_mask = 0b00001111111111, filter_axi_id = 0b00000000011010\<rparr>,
     \<lparr>filter_name = Some ''usb'',       filter_axi_id_mask = 0b11001111111111, filter_axi_id = 0b00000001011010\<rparr>,
     \<lparr>filter_name = Some ''enet'',      filter_axi_id_mask = 0b11111111111111, filter_axi_id = 0b00000010011010\<rparr>,
     \<lparr>filter_name = Some ''hsi'',       filter_axi_id_mask = 0b11111111111111, filter_axi_id = 0b00000011011010\<rparr>,
     \<lparr>filter_name = Some ''usdhc1'',    filter_axi_id_mask = 0b11111111111111, filter_axi_id = 0b00000111011010\<rparr>,
     \<lparr>filter_name = Some ''gpu3d-b'',   filter_axi_id_mask = 0b11110000111111, filter_axi_id = 0b00000000000011\<rparr>,
     \<lparr>filter_name = Some ''gpu2d-b'',   filter_axi_id_mask = 0b11110000111111, filter_axi_id = 0b00000000001011\<rparr>,
     \<lparr>filter_name = Some ''vpu-prime'', filter_axi_id_mask = 0b11110000111111, filter_axi_id = 0b00000000010011\<rparr>,
     \<lparr>filter_name = Some ''pcie'',      filter_axi_id_mask = 0b11100000111111, filter_axi_id = 0b00000000011011\<rparr>,
     \<lparr>filter_name = Some ''dap'',       filter_axi_id_mask = 0b11111111111111, filter_axi_id = 0b00000000100011\<rparr>,
     \<lparr>filter_name = Some ''apbh-dma'',  filter_axi_id_mask = 0b11111111111111, filter_axi_id = 0b00000010100011\<rparr>,
     \<lparr>filter_name = Some ''bch40'',     filter_axi_id_mask = 0b00001111111111, filter_axi_id = 0b00000001100011\<rparr>,
     \<lparr>filter_name = Some ''sata'',      filter_axi_id_mask = 0b11111111111111, filter_axi_id = 0b00000011100011\<rparr>,
     \<lparr>filter_name = Some ''mlb150'',    filter_axi_id_mask = 0b11111111111111, filter_axi_id = 0b00000100100011\<rparr>,
     \<lparr>filter_name = Some ''usdhc2'',    filter_axi_id_mask = 0b11111111111111, filter_axi_id = 0b00000101100011\<rparr>,
     \<lparr>filter_name = Some ''usdhc3'',    filter_axi_id_mask = 0b11111111111111, filter_axi_id = 0b00000110100011\<rparr>,
     \<lparr>filter_name = Some ''usdhc4'',    filter_axi_id_mask = 0b11111111111111, filter_axi_id = 0b00000111100011\<rparr>,
     \<lparr>filter_name = None, filter_axi_id_mask = 0, filter_axi_id = 0\<rparr>]"

text \<open>
  \<^verbatim>\<open>strcmp\<close> on the contents of two C strings (the characters before the
  terminating NUL): the difference of the first two characters that differ, the
  end of a string counting as NUL.
\<close>

fun strcmp :: "string \<Rightarrow> string \<Rightarrow> int" where
  "strcmp [] [] = 0"
| "strcmp [] (y # ys) = - int (of_char y)"
| "strcmp (x # xs) [] = int (of_char x)"
| "strcmp (x # xs) (y # ys) =
     (if x = y then strcmp xs ys else int (of_char x) - int (of_char y))"

text \<open>
  The first loop of \<^verbatim>\<open>setup_axi_filter\<close>: walk the array up to the entry with
  a null name; at the first entry whose name compares equal, print, set the two
  globals and return (\<open>Some\<close> of the state returned). \<open>None\<close>: the loop ended
  at the null entry. (The array always ends with it; a walk past the end of a list
  finds nothing.)
\<close>

fun filter_loop :: "axi_filter list \<Rightarrow> string \<Rightarrow> state \<Rightarrow> state option" where
  "filter_loop [] master s = None"
| "filter_loop (f # fs) master s =
     (case filter_name f of
        None \<Rightarrow> None
      | Some n \<Rightarrow>
          if strcmp n master = 0 then
            (let s = printf (''filtering for AXI IDs from master ''
                             @ [CHR 0x27] @ n @ [CHR 0x27] @ ''\<newline>'') s
             in Some (s\<lparr>axi_id := filter_axi_id f, axi_id_mask := filter_axi_id_mask f\<rparr>))
          else filter_loop fs master s)"

text \<open>The loop that prints the names, in \<^verbatim>\<open>setup_axi_filter\<close> and under
  \<^verbatim>\<open>--help\<close>.\<close>

fun print_names :: "axi_filter list \<Rightarrow> string" where
  "print_names [] = []"
| "print_names (f # fs) =
     (case filter_name f of
        None \<Rightarrow> []
      | Some n \<Rightarrow> '' '' @ n @ print_names fs)"

definition setup_axi_filter :: "string \<Rightarrow> state \<Rightarrow> state" where
  "setup_axi_filter master s =
     (case filter_loop filters master s of
        Some s' \<Rightarrow> s'
      | None \<Rightarrow>
          (let s = printf ''not filtering for AXI IDs. Possible AXI masters:\<newline> '' s;
               s = printf (print_names filters) s;
               s = printf ''\<newline>'' s
           in s\<lparr>axi_id := 0, axi_id_mask := 0\<rparr>))"

text \<open>The entries of the table: what stands before the null entry.\<close>

definition catalog :: "axi_filter list" where
  "catalog = takeWhile (\<lambda>f. filter_name f \<noteq> None) filters"

section \<open>The sampling loop\<close>

text \<open>
  \<^verbatim>\<open>main\<close> from the call of \<^verbatim>\<open>perf_init\<close> on (its argument handling is
  not part of this development). The loop \<^verbatim>\<open>for (;;)\<close> has no exit, so the
  model observes it after \<open>n\<close> rounds: the process has left with a status, is still
  looping in some state, or was killed.
\<close>

datatype outcome = Exit int state | Looping state | Killed

definition sleep :: "state \<Rightarrow> state" where
  "sleep s = s"

fun rounds :: "abi \<Rightarrow> nat \<Rightarrow> state \<Rightarrow> state option" where
  "rounds abi 0 s = Some s"
| "rounds abi (Suc n) s =
     (case perf_print abi (perf_stop (sleep (perf_start s))) of
        None \<Rightarrow> None
      | Some s' \<Rightarrow> rounds abi n s')"

definition main_from_init :: "system \<Rightarrow> abi \<Rightarrow> nat \<Rightarrow> state \<Rightarrow> outcome" where
  "main_from_init sys abi n s =
     (case perf_init sys s of
        (err, s) \<Rightarrow>
          if err \<noteq> 0 then Exit 1 s
          else (case rounds abi n s of None \<Rightarrow> Killed | Some s' \<Rightarrow> Looping s'))"

section \<open>Notions used in the statements\<close>

subsection \<open>Sequences of operations\<close>

datatype op = Start | Stop

fun run_op :: "op \<Rightarrow> state \<Rightarrow> state" where
  "run_op Start s = perf_start s"
| "run_op Stop s = perf_stop s"

fun run_ops :: "op list \<Rightarrow> state \<Rightarrow> state" where
  "run_ops [] s = s"
| "run_ops (x # xs) s = run_ops xs (run_op x s)"

subsection \<open>The enable bit\<close>

text \<open>
  A device latches the enable bit when bit 0 of its control register is what the
  last store to that register wrote: no store to another register and nothing the
  device does on its own changes it.
\<close>

definition en_latched :: "window \<Rightarrow> bool" where
  "en_latched w \<longleftrightarrow>
     (\<forall>i v r. bit (hw_store w i v r (idx MMDC_MADPCR0)) 0 =
        (if i = idx MMDC_MADPCR0 then bit v 0 else bit (r (idx MMDC_MADPCR0)) 0)) \<and>
     (\<forall>r. bit (hw_load w r (idx MMDC_MADPCR0)) 0 = bit (r (idx MMDC_MADPCR0)) 0)"

text \<open>
  A stretch of accesses updates register \<open>c\<close> by read-modify-write only, keeping
  bit 0: every store to \<open>c\<close> comes directly after a load of \<open>c\<close> and writes bit 0
  as it was loaded.
\<close>

fun rmw_keeps_bit0 :: "nat \<Rightarrow> access list \<Rightarrow> bool" where
  "rmw_keeps_bit0 c [] = True"
| "rmw_keeps_bit0 c (Store j v # t) = (j \<noteq> c \<and> rmw_keeps_bit0 c t)"
| "rmw_keeps_bit0 c [Load i x] = True"
| "rmw_keeps_bit0 c (Load i x # Load i' x' # t) = rmw_keeps_bit0 c (Load i' x' # t)"
| "rmw_keeps_bit0 c (Load i x # Store j v # t) =
     ((j = c \<and> i = c \<and> bit v 0 = bit x 0 \<or> j \<noteq> c) \<and> rmw_keeps_bit0 c t)"

subsection \<open>The mean size of an access, as a number\<close>

definition ceil_div :: "nat \<Rightarrow> nat \<Rightarrow> nat" where
  "ceil_div a b = nat \<lceil>real a / real b\<rceil>"

subsection \<open>One block of \<^verbatim>\<open>perf_stop\<close>\<close>

text \<open>
  What one \<^verbatim>\<open>if (mmdc)\<close> block of \<^verbatim>\<open>perf_stop\<close> does with its window:
  whether the overflow flag was seen, the snapshot read, the window afterwards.
\<close>

definition stop_block :: "window \<Rightarrow> bool \<times> mmdc_stats \<times> window" where
  "stop_block w =
     (let w1 = reg_or w (idx MMDC_MADPCR0) MADPCR0_PRF_FRZ;
          v = fst (reg_read w1 (idx MMDC_MADPCR0));
          w2 = snd (reg_read w1 (idx MMDC_MADPCR0))
      in (v AND MADPCR0_CYC_OVF \<noteq> 0, fst (mmdc_read w2), snd (mmdc_read w2)))"

text \<open>A window is armed when its device latches the enable bit and the bit is set.\<close>

definition armed :: "window \<Rightarrow> bool" where
  "armed w \<longleftrightarrow> en_latched w \<and> bit (regs w (idx MMDC_MADPCR0)) 0"

subsection \<open>Two machines\<close>

text \<open>
  Register pages that behave like memory, with counter values left in the
  statistics registers; on the second machine only the first controller can be
  mapped.
\<close>

definition sample_regs :: regs where
  "sample_regs =
     (\<lambda>i. 0)(idx MMDC_MADPSR0 := 100000000, idx MMDC_MADPSR1 := 25000000,
             idx MMDC_MADPSR2 := 10, idx MMDC_MADPSR3 := 5,
             idx MMDC_MADPSR4 := 640, idx MMDC_MADPSR5 := 320)"

definition sample_stats :: mmdc_stats where
  "sample_stats = \<lparr>cycles = 100000000, busy_cycles = 25000000, read_accesses = 10,
     write_accesses = 5, read_bytes = 640, write_bytes = 320\<rparr>"

definition two_controllers :: system where
  "two_controllers =
     \<lparr>dev_mem_fd = 3,
      mmap = (\<lambda>fd base. if base = MMDC0_BASE \<or> base = MMDC1_BASE
                         then Some (ram_window sample_regs) else None)\<rparr>"

definition first_controller_only :: system where
  "first_controller_only =
     \<lparr>dev_mem_fd = 3,
      mmap = (\<lambda>fd base. if base = MMDC0_BASE then Some (ram_window sample_regs) else None)\<rparr>"

text \<open>
  A snapshot of four seconds of reading at about 1 GiB/s in 32-byte bursts: just
  under \<open>2^32\<close> bytes in \<open>2^27\<close> accesses.
\<close>

definition busy_stats :: mmdc_stats where
  "busy_stats = \<lparr>cycles = 400000000, busy_cycles = 300000000, read_accesses = 134217728,
     write_accesses = 5, read_bytes = 4294967264, write_bytes = 320\<rparr>"

section \<open>Constants\<close>

lemmas offset_defs =
  MMDC_MADPCR0_def MMDC_MADPCR1_def MMDC_MADPSR0_def MMDC_MADPSR1_def
  MMDC_MADPSR2_def MMDC_MADPSR3_def MMDC_MADPSR4_def MMDC_MADPSR5_def

lemmas bit_defs =
  MADPCR0_DBG_EN_def MADPCR0_DBG_RST_def MADPCR0_PRF_FRZ_def MADPCR0_CYC_OVF_def

lemma idx_values:
  "idx MMDC_MADPCR0 = 260" "idx MMDC_MADPCR1 = 261" "idx MMDC_MADPSR0 = 262"
  "idx MMDC_MADPSR1 = 263" "idx MMDC_MADPSR2 = 264" "idx MMDC_MADPSR3 = 265"
  "idx MMDC_MADPSR4 = 266" "idx MMDC_MADPSR5 = 267"
  by (simp_all add: idx_def offset_defs drop_bit_eq_div)

lemma bit_values:
  "MADPCR0_DBG_EN = 1" "MADPCR0_DBG_RST = 2" "MADPCR0_PRF_FRZ = 4" "MADPCR0_CYC_OVF = 8"
  by (simp_all add: bit_defs)

lemma idx_neq: "idx MMDC_MADPCR1 \<noteq> idx MMDC_MADPCR0"
  by (simp add: idx_values)

section \<open>The formatter\<close>

subsection \<open>Unsigned long arithmetic\<close>

lemma ulong_of_u32_unat: "ulong_of_u32 abi b = unat b"
proof -
  have "unat b < 2 ^ 32" using unsigned_less [of b] by simp
  then show ?thesis by (cases abi) (simp_all add: ulong_of_u32_def)
qed

lemma wrap_sub_one:
  fixes x M :: nat
  assumes "0 < x" and "x < M"
  shows "(x + M - 1) mod M = x - 1"
proof -
  from assms have "x + M - 1 = (x - 1) + M" by simp
  then have "(x + M - 1) mod M = (x - 1) mod M" by simp
  with assms show ?thesis by simp
qed

lemma ulong_sub_one:
  assumes "0 < x" and "x < 2 ^ ulong_bits abi"
  shows "ulong_sub abi x 1 = x - 1"
proof -
  have "(1::nat) mod 2 ^ ulong_bits abi = 1" by (cases abi) simp_all
  then show ?thesis
    using wrap_sub_one [OF assms] by (simp add: ulong_sub_def)
qed

subsection \<open>Unit scaling\<close>

lemma scale_loop_spec:
  "scale_loop c u = (v, s) \<Longrightarrow> u \<le> 3 \<Longrightarrow>
     u \<le> s \<and> s \<le> 3 \<and> v * 1024 ^ (s - u) \<le> c \<and> c < (v + 1) * 1024 ^ (s - u)
     \<and> (v \<le> 1023 \<or> s = 3) \<and> (s = u \<or> 1 \<le> v)"
proof (induction c u arbitrary: v s rule: scale_loop.induct)
  case (1 c u)
  show ?case
  proof (cases "c > 1023 \<and> u < 3")
    case False
    with "1.prems" show ?thesis
      by (auto simp: scale_loop.simps [of c u])
  next
    case True
    then have rec: "scale_loop (c div 1024) (u + 1) = (v, s)"
      using "1.prems" by (simp add: scale_loop.simps [of c u])
    from True have "u + 1 \<le> 3" by simp
    from "1.IH" [OF True rec this]
    have ih: "u + 1 \<le> s" "s \<le> 3" "v * 1024 ^ (s - (u + 1)) \<le> c div 1024"
      "c div 1024 < (v + 1) * 1024 ^ (s - (u + 1))" "v \<le> 1023 \<or> s = 3"
      "s = u + 1 \<or> 1 \<le> v"
      by auto
    have pw: "(1024::nat) ^ (s - u) = 1024 ^ (s - (u + 1)) * 1024"
      using ih(1) by (metis Suc_diff_le Suc_eq_plus1 diff_Suc_Suc power_Suc2)
    have lo: "v * 1024 ^ (s - u) \<le> c"
    proof -
      have "v * 1024 ^ (s - (u + 1)) * 1024 \<le> (c div 1024) * 1024"
        using ih(3) by simp
      also have "\<dots> \<le> c" by simp
      finally show ?thesis by (simp add: pw mult.assoc)
    qed
    have hi: "c < (v + 1) * 1024 ^ (s - u)"
    proof -
      have "c div 1024 + 1 \<le> (v + 1) * 1024 ^ (s - (u + 1))"
        using ih(4) by simp
      then have "(c div 1024 + 1) * 1024 \<le> (v + 1) * 1024 ^ (s - (u + 1)) * 1024"
        by simp
      moreover have "c < (c div 1024 + 1) * 1024"
        by (simp add: dividend_less_div_times)
      ultimately show ?thesis by (simp add: pw mult.assoc)
    qed
    have one: "1 \<le> v"
    proof (cases "s = u + 1")
      case True
      with ih(3,4) \<open>c > 1023 \<and> u < 3\<close> show ?thesis by auto
    next
      case False
      with ih(6) show ?thesis by simp
    qed
    from ih lo hi one show ?thesis by auto
  qed
qed

text \<open>
  C7. Whatever 32-bit byte total \<open>b\<close> a snapshot holds, on either ABI, the scaling
  loop of \<^verbatim>\<open>mmdc_print_pretty\<close> started at unit 0 ends with a value \<open>v\<close> of at
  most 1023 after \<open>steps\<close> divisions by 1024, at most 3 of them, and the total lies
  in the range the scaled value stands for: \<open>v * 1024^steps \<le> b < (v + 1) * 1024^steps\<close>.
  The loop divides only while the value exceeds 1023, so after a division the
  value is at least 1.
\<close>

theorem unit_scaling:
  "case scale_loop (ulong_of_u32 abi b) 0 of
     (v, steps) \<Rightarrow>
       v \<le> 1023 \<and> steps \<le> 3 \<and>
       v * 1024 ^ steps \<le> unat b \<and> unat b < (v + 1) * 1024 ^ steps \<and>
       (steps = 0 \<or> 1 \<le> v)"
proof -
  obtain v steps where r: "scale_loop (unat b) 0 = (v, steps)"
    by (cases "scale_loop (unat b) 0")
  from scale_loop_spec [OF r] have s: "steps \<le> 3" "v * 1024 ^ steps \<le> unat b"
    "unat b < (v + 1) * 1024 ^ steps" "v \<le> 1023 \<or> steps = 3" "steps = 0 \<or> 1 \<le> v"
    by simp_all
  have "v \<le> 1023"
  proof (cases "steps = 3")
    case True
    have "unat b < 2 ^ 32" using unsigned_less [of b] by simp
    with s(2) True show ?thesis by simp
  next
    case False
    with s(4) show ?thesis by simp
  qed
  with s r show ?thesis by (simp add: ulong_of_u32_unat)
qed

subsection \<open>The mean size of an access\<close>

lemma ceil_div_nat:
  assumes "0 < b"
  shows "ceil_div a b = (a + b - 1) div b"
proof -
  define q where "q = (a + b - 1) div b"
  have 1: "q * b \<le> a + b - 1" by (simp add: q_def)
  have 2: "a + b - 1 < (q + 1) * b"
    using assms by (simp add: q_def dividend_less_div_times)
  from 2 assms have "a \<le> q * b" by simp
  then have "real a \<le> real q * real b"
    by (metis of_nat_le_iff of_nat_mult)
  then have up: "real a / real b \<le> of_int (int q)"
    using assms by (simp add: pos_divide_le_eq)
  from 1 assms have "q * b < a + b" by simp
  then have "real q * real b < real a + real b"
    by (metis of_nat_less_iff of_nat_mult of_nat_add)
  then have "(real q - 1) * real b < real a"
    by (simp add: algebra_simps)
  then have lo: "of_int (int q) - 1 < real a / real b"
    using assms by (simp add: pos_less_divide_eq)
  from lo up have "\<lceil>real a / real b\<rceil> = int q" by (rule ceiling_unique)
  then show ?thesis by (simp add: ceil_div_def q_def)
qed

text \<open>No division by zero: the guard of the source covers the only divisor that
  can be zero.\<close>

lemma access_size_Some: "access_size abi b a \<noteq> None"
proof (cases "a = 0")
  case True
  then show ?thesis by (simp add: access_size_def)
next
  case False
  then have "unat a \<noteq> 0" by (simp add: unsigned_eq_0_iff)
  then show ?thesis
    by (simp add: access_size_def Let_def ulong_div_def ulong_of_u32_unat)
qed

text \<open>With a 64-bit \<^verbatim>\<open>unsigned long\<close> the sum cannot wrap, and the result is the
  ceiling for every snapshot.\<close>

lemma access_size_LP64:
  "access_size LP64 b a = Some (if a = 0 then 0 else ceil_div (unat b) (unat a))"
proof (cases "a = 0")
  case True
  then show ?thesis by (simp add: access_size_def)
next
  case False
  then have "unat a \<noteq> 0" by (simp add: unsigned_eq_0_iff)
  then have a: "0 < unat a" by simp
  have lt: "unat b < 2 ^ 32" "unat a < 2 ^ 32"
    using unsigned_less [of b] unsigned_less [of a] by simp_all
  then have "ulong_add LP64 (unat b) (unat a) = unat b + unat a"
    by (simp add: ulong_add_def)
  moreover have "unat b + unat a < 2 ^ ulong_bits LP64"
    using lt by simp
  ultimately have "ulong_sub LP64 (ulong_add LP64 (unat b) (unat a)) 1 = unat b + unat a - 1"
    using a ulong_sub_one [of "unat b + unat a" LP64] by simp
  with False a show ?thesis
    by (simp add: access_size_def ulong_of_u32_unat ulong_div_def ceil_div_nat)
qed

text \<open>With a 32-bit \<^verbatim>\<open>unsigned long\<close> it is the ceiling as long as
  \<open>bytes + accesses - 1\<close> stays below \<open>2^32\<close>.\<close>

lemma access_size_ILP32:
  assumes "unat b + unat a \<le> 2 ^ 32"
  shows "access_size ILP32 b a = Some (if a = 0 then 0 else ceil_div (unat b) (unat a))"
proof (cases "a = 0")
  case True
  then show ?thesis by (simp add: access_size_def)
next
  case False
  then have "unat a \<noteq> 0" by (simp add: unsigned_eq_0_iff)
  then have a: "0 < unat a" by simp
  have "ulong_sub ILP32 (ulong_add ILP32 (unat b) (unat a)) 1 = unat b + unat a - 1"
  proof (cases "unat b + unat a = 2 ^ 32")
    case True
    then show ?thesis by (simp add: ulong_sub_def ulong_add_def)
  next
    case False
    with assms have lt: "unat b + unat a < 2 ^ 32" by simp
    then have "ulong_add ILP32 (unat b) (unat a) = unat b + unat a"
      by (simp add: ulong_add_def)
    with a lt show ?thesis using ulong_sub_one [of "unat b + unat a" ILP32] by simp
  qed
  with False a show ?thesis
    by (simp add: access_size_def ulong_of_u32_unat ulong_div_def ceil_div_nat)
qed

lemma busy_stats_ILP32:
  "mmdc_print_pretty ILP32 ''MMDC0'' busy_stats =
     Some ''MMDC0 75.00% busy 3 GiB reads (0 B / access) 320 B writes (64 B / access)''"
  by code_simp

lemma busy_stats_LP64:
  "mmdc_print_pretty LP64 ''MMDC0'' busy_stats =
     Some ''MMDC0 75.00% busy 3 GiB reads (32 B / access) 320 B writes (64 B / access)''"
  by code_simp

text \<open>
  C8. The mean size of an access is meant to be the ceiling of bytes over accesses,
  and zero for no accesses. On the i.MX6, where \<^verbatim>\<open>unsigned long\<close> has 32 bits,
  the sum \<open>bytes + accesses - 1\<close> wraps around for the snapshot \<open>busy_stats\<close>
  (\<open>2^32 - 32\<close> bytes read in \<open>2^27\<close> accesses): the program prints a mean read
  size of 0 bytes where the ceiling is 32, which is what the same source prints
  with a 64-bit \<^verbatim>\<open>unsigned long\<close>.
\<close>

theorem access_size_wraps:
  "access_size ILP32 (read_bytes busy_stats) (read_accesses busy_stats) = Some 0 \<and>
   ceil_div (unat (read_bytes busy_stats)) (unat (read_accesses busy_stats)) = 32 \<and>
   access_size LP64 (read_bytes busy_stats) (read_accesses busy_stats) = Some 32 \<and>
   mmdc_print_pretty ILP32 ''MMDC0'' busy_stats =
     Some ''MMDC0 75.00% busy 3 GiB reads (0 B / access) 320 B writes (64 B / access)''"
proof -
  have c: "ceil_div (unat (read_bytes busy_stats)) (unat (read_accesses busy_stats)) = 32"
    by (simp add: busy_stats_def ceil_div_def)
  have "access_size ILP32 (read_bytes busy_stats) (read_accesses busy_stats) = Some 0"
    by (simp add: busy_stats_def access_size_def ulong_of_u32_def ulong_add_def
        ulong_sub_def ulong_div_def)
  moreover have "access_size LP64 (read_bytes busy_stats) (read_accesses busy_stats) = Some 32"
    using c by (simp add: access_size_LP64) (simp add: busy_stats_def)
  ultimately show ?thesis using c busy_stats_ILP32 by simp
qed

subsection \<open>Lines\<close>

lemma busy_percent_zero_cycles:
  "cycles st = 0 \<Longrightarrow> busy_percent st = (if busy_cycles st = 0 then ''nan'' else ''inf'')"
  by (simp add: busy_percent_def fp_div_def fmt_2f_def unsigned_eq_0_iff)

lemma mmdc_print_Some: "\<exists>line. mmdc_print abi p tag st = Some line"
proof -
  obtain rs where rs: "access_size abi (read_bytes st) (read_accesses st) = Some rs"
    using access_size_Some by blast
  obtain ws where ws: "access_size abi (write_bytes st) (write_accesses st) = Some ws"
    using access_size_Some by blast
  show ?thesis
    by (simp add: mmdc_print_def mmdc_print_pretty_def rs ws split_beta)
qed

text \<open>
  C9. For a snapshot whose cycle count is zero, \<^verbatim>\<open>mmdc_print\<close> still prints its
  line, in raw and in human mode and on either ABI: the process is not killed by an
  integer division by zero (the result is not \<open>None\<close>). The percentage is the
  result of a floating-point division by zero, which does not trap: the line reads
  \<^verbatim>\<open>nan\<close> when the busy count is zero too, \<^verbatim>\<open>inf\<close> otherwise.
\<close>

theorem zero_cycles_formatting:
  assumes "cycles st = 0"
  shows "\<exists>rest. mmdc_print abi p tag st =
     Some (tag @ '' '' @ (if busy_cycles st = 0 then ''nan'' else ''inf'') @ ''% busy '' @ rest)"
proof (cases p)
  case False
  with assms show ?thesis
    by (simp add: mmdc_print_def busy_percent_zero_cycles)
next
  case True
  obtain rs where rs: "access_size abi (read_bytes st) (read_accesses st) = Some rs"
    using access_size_Some by blast
  obtain ws where ws: "access_size abi (write_bytes st) (write_accesses st) = Some ws"
    using access_size_Some by blast
  from True show ?thesis
    by (simp add: mmdc_print_def mmdc_print_pretty_def rs ws
        busy_percent_zero_cycles [OF assms] split_beta)
qed

theorem zero_cycles_formatting_witness:
  "(\<exists>rest. mmdc_print ILP32 True ''MMDC0'' zero_stats = Some (''MMDC0 nan% busy '' @ rest)) \<and>
   (\<exists>rest. mmdc_print ILP32 False ''MMDC0'' (zero_stats\<lparr>busy_cycles := 7\<rparr>) =
              Some (''MMDC0 inf% busy '' @ rest))"
proof -
  have "cycles zero_stats = 0" and "cycles (zero_stats\<lparr>busy_cycles := 7\<rparr>) = 0"
    by (simp_all add: zero_stats_def)
  from zero_cycles_formatting [OF this(1), of ILP32 True "''MMDC0''"]
    zero_cycles_formatting [OF this(2), of ILP32 False "''MMDC0''"]
  show ?thesis by (simp add: zero_stats_def)
qed

lemma sample_line_ILP32:
  "mmdc_print_pretty ILP32 ''MMDC0'' sample_stats =
     Some ''MMDC0 25.00% busy 640 B reads (64 B / access) 320 B writes (64 B / access)''"
  by code_simp

lemma sample_line_LP64:
  "mmdc_print_pretty LP64 ''MMDC0'' sample_stats =
     Some ''MMDC0 25.00% busy 640 B reads (64 B / access) 320 B writes (64 B / access)''"
  by code_simp

text \<open>
  C2, as the code has it. For the snapshot \<open>sample_stats\<close> (100000000 cycles,
  25000000 of them busy, 10 reads of 640 bytes, 5 writes of 320 bytes) the human
  mode prints, after the tag,
  \<^verbatim>\<open>25.00% busy 640 B reads (64 B / access) 320 B writes (64 B / access)\<close>:
  both totals are below 1024 and therefore printed in bytes, unscaled.
\<close>

theorem sample_line:
  "mmdc_print_pretty abi ''MMDC0'' sample_stats =
     Some ''MMDC0 25.00% busy 640 B reads (64 B / access) 320 B writes (64 B / access)''"
proof (cases abi)
  case ILP32
  then show ?thesis by (simp only: sample_line_ILP32)
next
  case LP64
  then show ?thesis by (simp only: sample_line_LP64)
qed

text \<open>The line of the claim as stated, with totals of 0 KiB and 0 B, is not what
  is printed.\<close>

theorem sample_line_counterexample:
  "mmdc_print_pretty ILP32 ''MMDC0'' sample_stats \<noteq>
     Some ''MMDC0 25.00% busy 0 KiB reads (64 B / access) 0 B writes (64 B / access)''"
  by (simp add: sample_line_ILP32)

section \<open>The filter table\<close>

lemma strcmp_0_iff:
  "CHR 0x00 \<notin> set a \<Longrightarrow> CHR 0x00 \<notin> set b \<Longrightarrow> strcmp a b = 0 \<longleftrightarrow> a = b"
proof (induction a b rule: strcmp.induct)
  case 1
  then show ?case by simp
next
  case (2 y ys)
  then have "(of_char y :: nat) \<noteq> 0" by (cases y) auto
  then show ?case by simp
next
  case (3 x xs)
  then have "(of_char x :: nat) \<noteq> 0" by (cases x) auto
  then show ?case by simp
next
  case (4 x xs y ys)
  have "int (of_char x) - int (of_char y) = 0 \<longleftrightarrow> x = y"
    by simp
  with 4 show ?case by auto
qed

lemma filters_split:
  "filters = catalog @ [\<lparr>filter_name = None, filter_axi_id_mask = 0, filter_axi_id = 0\<rparr>]"
  by (simp add: catalog_def filters_def)

lemma catalog_names_distinct: "distinct (map filter_name catalog)"
  by (simp add: catalog_def filters_def)

lemma catalog_names_some:
  "\<forall>f\<in>set catalog. \<exists>n. filter_name f = Some n \<and> CHR 0x00 \<notin> set n"
  by (simp add: catalog_def filters_def)

text \<open>
  C4, as the code has it. The table \<^verbatim>\<open>filters\<close> has 36 entries before the null
  entry that ends it (37 array elements), not 35. Every entry has a name, the names
  are pairwise distinct, and every identifier and mask fits in 14 bits.
\<close>

theorem catalog_size:
  "length catalog = 36 \<and> length filters = 37 \<and> filter_name (last filters) = None \<and>
   distinct (map filter_name catalog) \<and>
   list_all (\<lambda>f. filter_name f \<noteq> None \<and>
                  unat (filter_axi_id f) < 2 ^ 14 \<and> unat (filter_axi_id_mask f) < 2 ^ 14) catalog"
proof -
  have "length catalog = 36" "length filters = 37" "filter_name (last filters) = None"
    by (simp_all add: catalog_def filters_def)
  moreover have "list_all (\<lambda>f. filter_name f \<noteq> None \<and>
                  unat (filter_axi_id f) < 2 ^ 14 \<and> unat (filter_axi_id_mask f) < 2 ^ 14) catalog"
    by (simp add: catalog_def filters_def)
  ultimately show ?thesis using catalog_names_distinct by simp
qed

theorem catalog_size_counterexample: "length catalog \<noteq> 35"
  by (simp add: catalog_def filters_def)

subsection \<open>Lookup\<close>

lemma filter_loop_hit:
  assumes "f \<in> set fs" and "filter_name f = Some n"
    and "\<forall>g\<in>set fs. \<exists>m. filter_name g = Some m \<and> CHR 0x00 \<notin> set m"
    and "distinct (map filter_name fs)"
  shows "filter_loop (fs @ rest) n s =
     Some ((printf (''filtering for AXI IDs from master ''
                             @ [CHR 0x27] @ n @ [CHR 0x27] @ ''\<newline>'') s)
      \<lparr>axi_id := filter_axi_id f, axi_id_mask := filter_axi_id_mask f\<rparr>)"
  using assms
proof (induction fs)
  case Nil
  then show ?case by simp
next
  case (Cons g gs)
  from Cons.prems(3) obtain m where m: "filter_name g = Some m" "CHR 0x00 \<notin> set m"
    by auto
  from Cons.prems(1,2,3) have n0: "CHR 0x00 \<notin> set n" by force
  show ?case
  proof (cases "g = f")
    case True
    with m Cons.prems(2) have "m = n" by simp
    with m n0 True show ?thesis by (simp add: strcmp_0_iff Let_def)
  next
    case False
    with Cons.prems(1) have fin: "f \<in> set gs" by simp
    with Cons.prems(2,4) m have "m \<noteq> n" by force
    with m n0 have "strcmp m n \<noteq> 0" by (simp add: strcmp_0_iff)
    moreover have "filter_loop (gs @ rest) n s =
      Some ((printf (''filtering for AXI IDs from master ''
                             @ [CHR 0x27] @ n @ [CHR 0x27] @ ''\<newline>'') s)
      \<lparr>axi_id := filter_axi_id f, axi_id_mask := filter_axi_id_mask f\<rparr>)"
      using Cons.IH [OF fin Cons.prems(2)] Cons.prems(3,4) by simp
    ultimately show ?thesis using m by simp
  qed
qed

lemma filter_loop_miss:
  assumes "CHR 0x00 \<notin> set master"
    and "\<forall>g\<in>set fs. \<exists>m. filter_name g = Some m \<and> CHR 0x00 \<notin> set m"
    and "Some master \<notin> filter_name ` set fs"
    and "filter_name e = None"
  shows "filter_loop (fs @ e # rest) master s = None"
  using assms
proof (induction fs)
  case Nil
  then show ?case by simp
next
  case (Cons g gs)
  from Cons.prems(2) obtain m where m: "filter_name g = Some m" "CHR 0x00 \<notin> set m"
    by auto
  with Cons.prems(3) have "m \<noteq> master" by force
  with m Cons.prems(1) have "strcmp m master \<noteq> 0" by (simp add: strcmp_0_iff)
  moreover have "filter_loop (gs @ e # rest) master s = None"
    using Cons.IH Cons.prems by simp
  ultimately show ?case using m by simp
qed

text \<open>
  C6. For every entry of the table, \<^verbatim>\<open>setup_axi_filter\<close> called with the entry's
  name sets the globals \<open>axi_id\<close> and \<open>axi_id_mask\<close> to that entry's identifier and
  mask. Called with a string (a C string: no NUL in it) that is not the name of any
  entry, it sets both to zero. The comparison is \<^verbatim>\<open>strcmp\<close>, equality character
  by character, so a name in another case is not in the table.
\<close>

theorem setup_axi_filter_lookup:
  "(\<forall>f\<in>set catalog. \<forall>n. filter_name f = Some n \<longrightarrow>
      axi_id (setup_axi_filter n s) = filter_axi_id f \<and>
      axi_id_mask (setup_axi_filter n s) = filter_axi_id_mask f) \<and>
   (CHR 0x00 \<notin> set master \<and> Some master \<notin> filter_name ` set catalog \<longrightarrow>
      axi_id (setup_axi_filter master s) = 0 \<and> axi_id_mask (setup_axi_filter master s) = 0)"
proof (intro conjI ballI allI impI)
  fix f n
  assume f: "f \<in> set catalog" "filter_name f = Some n"
  note hit = filter_loop_hit [OF f catalog_names_some catalog_names_distinct,
      of "[\<lparr>filter_name = None, filter_axi_id_mask = 0, filter_axi_id = 0\<rparr>]" s]
  show "axi_id (setup_axi_filter n s) = filter_axi_id f"
    by (simp add: setup_axi_filter_def filters_split hit)
  show "axi_id_mask (setup_axi_filter n s) = filter_axi_id_mask f"
    by (simp add: setup_axi_filter_def filters_split hit)
next
  assume m: "CHR 0x00 \<notin> set master \<and> Some master \<notin> filter_name ` set catalog"
  then have miss: "filter_loop filters master s = None"
    unfolding filters_split
    by (intro filter_loop_miss catalog_names_some) simp_all
  show "axi_id (setup_axi_filter master s) = 0"
    by (simp add: setup_axi_filter_def miss)
  show "axi_id_mask (setup_axi_filter master s) = 0"
    by (simp add: setup_axi_filter_def miss)
qed

lemma usb_in_catalog:
  "\<lparr>filter_name = Some ''usb'', filter_axi_id_mask = 0b11001111111111,
    filter_axi_id = 0b00000001011010\<rparr> \<in> set catalog"
  by (simp add: catalog_def filters_def)

lemma USB_not_in_catalog: "Some ''USB'' \<notin> filter_name ` set catalog"
  by (simp add: catalog_def filters_def)

theorem setup_axi_filter_lookup_witness:
  "axi_id (setup_axi_filter ''usb'' init_state) = 0b00000001011010 \<and>
   axi_id_mask (setup_axi_filter ''usb'' init_state) = 0b11001111111111 \<and>
   axi_id (setup_axi_filter ''USB'' init_state) = 0 \<and>
   axi_id_mask (setup_axi_filter ''USB'' init_state) = 0"
  using setup_axi_filter_lookup [of init_state "''USB''"] usb_in_catalog USB_not_in_catalog
  by fastforce

section \<open>Register accesses\<close>

lemma reg_read_fields [simp]:
  "hw_store (snd (reg_read w i)) = hw_store w"
  "hw_load (snd (reg_read w i)) = hw_load w"
  "regs (snd (reg_read w i)) = hw_load w (regs w)"
  "fst (reg_read w i) = hw_load w (regs w) i"
  "trace (snd (reg_read w i)) = trace w @ [Load i (hw_load w (regs w) i)]"
  by (simp_all add: reg_read_def Let_def)

lemma reg_write_fields [simp]:
  "hw_store (reg_write w i v) = hw_store w"
  "hw_load (reg_write w i v) = hw_load w"
  "regs (reg_write w i v) = hw_store w i v (regs w)"
  "trace (reg_write w i v) = trace w @ [Store i v]"
  by (simp_all add: reg_write_def)

lemma reg_or_alt: "reg_or w i v = reg_write (snd (reg_read w i)) i (fst (reg_read w i) OR v)"
  by (simp add: reg_or_def split_beta)

lemma reg_and_alt: "reg_and w i v = reg_write (snd (reg_read w i)) i (fst (reg_read w i) AND v)"
  by (simp add: reg_and_def split_beta)

lemma mmdc_read_alt:
  "mmdc_read w =
    (let w1 = snd (reg_read w (idx MMDC_MADPSR0));
         w2 = snd (reg_read w1 (idx MMDC_MADPSR1));
         w3 = snd (reg_read w2 (idx MMDC_MADPSR2));
         w4 = snd (reg_read w3 (idx MMDC_MADPSR3));
         w5 = snd (reg_read w4 (idx MMDC_MADPSR4));
         w6 = snd (reg_read w5 (idx MMDC_MADPSR5))
     in (\<lparr>cycles = fst (reg_read w (idx MMDC_MADPSR0)),
          busy_cycles = fst (reg_read w1 (idx MMDC_MADPSR1)),
          read_accesses = fst (reg_read w2 (idx MMDC_MADPSR2)),
          write_accesses = fst (reg_read w3 (idx MMDC_MADPSR3)),
          read_bytes = fst (reg_read w4 (idx MMDC_MADPSR4)),
          write_bytes = fst (reg_read w5 (idx MMDC_MADPSR5))\<rparr>, w6))"
  by (simp add: mmdc_read_def Let_def split_beta)

lemma printf_fields [simp]:
  "mmdc0 (printf t s) = mmdc0 s" "mmdc1 (printf t s) = mmdc1 s"
  "mmdc0_end (printf t s) = mmdc0_end s" "mmdc1_end (printf t s) = mmdc1_end s"
  "pretty (printf t s) = pretty s"
  by (simp_all add: printf_def)

section \<open>Arming\<close>

text \<open>
  C5. When the page of a controller can be mapped, \<^verbatim>\<open>mmdc_init\<close> makes exactly
  four stores to it, in this order: 0 to the control register MADPCR0, then
  reset-assert with overflow-clear, then enable with freeze, and last
  \<open>(axi_id_mask << 16) | axi_id\<close> to the filter register MADPCR1, the two globals
  being the active filter. The registers of the page it returns are what the
  device makes of these four stores, applied in that order to the registers it had,
  and the device itself is the same. In numbers: word indices \<open>0x104\<close> and
  \<open>0x105\<close>, control values \<open>0\<close>, \<open>0xA\<close>, \<open>0x5\<close>.
\<close>

theorem mmdc_init_writes:
  assumes "mmap sys fd base = Some w"
  shows "\<exists>w'. mmdc_init sys s fd base = Some w' \<and>
       trace w' = trace w @
         [Store (idx MMDC_MADPCR0) 0,
          Store (idx MMDC_MADPCR0) (MADPCR0_DBG_RST OR MADPCR0_CYC_OVF),
          Store (idx MMDC_MADPCR0) (MADPCR0_DBG_EN OR MADPCR0_PRF_FRZ),
          Store (idx MMDC_MADPCR1) (push_bit 16 (ucast (axi_id_mask s)) OR ucast (axi_id s))] \<and>
       regs w' =
         hw_store w (idx MMDC_MADPCR1) (push_bit 16 (ucast (axi_id_mask s)) OR ucast (axi_id s))
           (hw_store w (idx MMDC_MADPCR0) (MADPCR0_DBG_EN OR MADPCR0_PRF_FRZ)
             (hw_store w (idx MMDC_MADPCR0) (MADPCR0_DBG_RST OR MADPCR0_CYC_OVF)
               (hw_store w (idx MMDC_MADPCR0) 0 (regs w)))) \<and>
       hw_store w' = hw_store w \<and> hw_load w' = hw_load w \<and>
       idx MMDC_MADPCR0 = 0x104 \<and> idx MMDC_MADPCR1 = 0x105 \<and>
       MADPCR0_DBG_RST OR MADPCR0_CYC_OVF = 0xA \<and> MADPCR0_DBG_EN OR MADPCR0_PRF_FRZ = 0x5"
proof -
  have "idx MMDC_MADPCR0 = 0x104" "idx MMDC_MADPCR1 = 0x105"
    by (simp_all add: idx_values)
  moreover have "MADPCR0_DBG_RST OR MADPCR0_CYC_OVF = 0xA"
    "MADPCR0_DBG_EN OR MADPCR0_PRF_FRZ = 0x5"
    by (simp_all add: bit_values)
  moreover have "mmdc_init sys s fd base =
    Some (reg_write (reg_write (reg_write (reg_write w
      (idx MMDC_MADPCR0) 0)
      (idx MMDC_MADPCR0) (MADPCR0_DBG_RST OR MADPCR0_CYC_OVF))
      (idx MMDC_MADPCR0) (MADPCR0_DBG_EN OR MADPCR0_PRF_FRZ))
      (idx MMDC_MADPCR1) (push_bit 16 (ucast (axi_id_mask s)) OR ucast (axi_id s)))"
    using assms
    by (simp add: mmdc_init_def Let_def MADPCR1_PRF_AXI_ID_MASK_SHIFT_def
        MADPCR1_PRF_AXI_ID_SHIFT_def)
  ultimately show ?thesis by simp
qed

text \<open>On a page that behaves like memory, with the filter of \<^verbatim>\<open>usb\<close> active:
  the control register ends as \<open>0x5\<close>, the filter register as \<open>0x33FF005A\<close>, and
  the statistics registers are as they were.\<close>

theorem mmdc_init_writes_witness:
  "\<exists>w'. mmdc_init two_controllers
           (init_state\<lparr>axi_id := 0b00000001011010, axi_id_mask := 0b11001111111111\<rparr>)
           3 MMDC0_BASE = Some w' \<and>
         trace w' = [Store 0x104 0, Store 0x104 0xA, Store 0x104 0x5, Store 0x105 0x33FF005A] \<and>
         regs w' = sample_regs(0x104 := 0x5, 0x105 := 0x33FF005A) \<and>
         regs w' 0x104 = 0x5 \<and> regs w' 0x105 = 0x33FF005A \<and>
         regs w' (idx MMDC_MADPSR0) = 100000000"
proof -
  have "mmap two_controllers 3 MMDC0_BASE = Some (ram_window sample_regs)"
    by (simp add: two_controllers_def)
  from mmdc_init_writes [OF this,
      of "init_state\<lparr>axi_id := 0b00000001011010, axi_id_mask := 0b11001111111111\<rparr>"]
  obtain w' where w': "mmdc_init two_controllers
           (init_state\<lparr>axi_id := 0b00000001011010, axi_id_mask := 0b11001111111111\<rparr>)
           3 MMDC0_BASE = Some w'"
    and t: "trace w' =
      [Store 0x104 0, Store 0x104 0xA, Store 0x104 0x5, Store 0x105 0x33FF005A]"
    and r: "regs w' = sample_regs(0x104 := 0x5, 0x105 := 0x33FF005A)"
    by (auto simp: ram_window_def)
  from r have "regs w' 0x104 = 0x5" "regs w' 0x105 = 0x33FF005A"
    "regs w' (idx MMDC_MADPSR0) = 100000000"
    by (simp_all add: sample_regs_def idx_values)
  with w' t r show ?thesis by blast
qed

section \<open>Start and stop\<close>

lemma perf_start_mmdc:
  "mmdc0 (perf_start s) = map_option start_block (mmdc0 s)"
  "mmdc1 (perf_start s) = map_option start_block (mmdc1 s)"
  "mmdc0_end (perf_start s) = mmdc0_end s"
  "mmdc1_end (perf_start s) = mmdc1_end s"
  "out (perf_start s) = out s"
  by (simp_all add: perf_start_def Let_def split: option.split)

lemma perf_stop_mmdc0:
  "mmdc0 s = Some w \<Longrightarrow>
     mmdc0 (perf_stop s) = Some (snd (snd (stop_block w))) \<and>
     mmdc0_end (perf_stop s) = fst (snd (stop_block w))"
  by (simp add: perf_stop_def stop_block_def Let_def split_beta split: option.split)

lemma perf_stop_mmdc1:
  "mmdc1 s = Some w \<Longrightarrow>
     mmdc1 (perf_stop s) = Some (snd (snd (stop_block w))) \<and>
     mmdc1_end (perf_stop s) = fst (snd (stop_block w))"
  by (simp add: perf_stop_def stop_block_def Let_def split_beta split: option.split)

lemma perf_stop_none0:
  "mmdc0 s = None \<Longrightarrow> mmdc0 (perf_stop s) = None \<and> mmdc0_end (perf_stop s) = mmdc0_end s"
  by (simp add: perf_stop_def Let_def split_beta split: option.split)

lemma perf_stop_none1:
  "mmdc1 s = None \<Longrightarrow> mmdc1 (perf_stop s) = None \<and> mmdc1_end (perf_stop s) = mmdc1_end s"
  by (simp add: perf_stop_def Let_def split_beta split: option.split)

lemma start_block_trace:
  "\<exists>x y. trace (start_block w) = trace w @
      [Load (idx MMDC_MADPCR0) x,
       Store (idx MMDC_MADPCR0) (x OR (MADPCR0_DBG_RST OR MADPCR0_CYC_OVF)),
       Load (idx MMDC_MADPCR0) y,
       Store (idx MMDC_MADPCR0) (y AND NOT (MADPCR0_DBG_RST OR MADPCR0_PRF_FRZ))]"
  by (simp add: start_block_def reg_or_alt reg_and_alt Let_def)

lemma stop_block_trace:
  "\<exists>x y c b ra wa rb wb.
     trace (snd (snd (stop_block w))) = trace w @
       [Load (idx MMDC_MADPCR0) x, Store (idx MMDC_MADPCR0) (x OR MADPCR0_PRF_FRZ),
        Load (idx MMDC_MADPCR0) y,
        Load (idx MMDC_MADPSR0) c, Load (idx MMDC_MADPSR1) b, Load (idx MMDC_MADPSR2) ra,
        Load (idx MMDC_MADPSR3) wa, Load (idx MMDC_MADPSR4) rb, Load (idx MMDC_MADPSR5) wb] \<and>
     fst (snd (stop_block w)) =
       \<lparr>cycles = c, busy_cycles = b, read_accesses = ra, write_accesses = wa,
        read_bytes = rb, write_bytes = wb\<rparr>"
  by (simp add: stop_block_def mmdc_read_alt reg_or_alt Let_def)

text \<open>On a page that behaves like memory the snapshot is the content of the six
  statistics registers.\<close>

lemma stop_block_ram:
  assumes "hw_load w = (\<lambda>r. r)" and "hw_store w = (\<lambda>i v r. r(i := v))"
  shows "fst (snd (stop_block w)) =
     \<lparr>cycles = regs w (idx MMDC_MADPSR0), busy_cycles = regs w (idx MMDC_MADPSR1),
      read_accesses = regs w (idx MMDC_MADPSR2), write_accesses = regs w (idx MMDC_MADPSR3),
      read_bytes = regs w (idx MMDC_MADPSR4), write_bytes = regs w (idx MMDC_MADPSR5)\<rparr>"
  by (simp add: stop_block_def mmdc_read_alt reg_or_alt Let_def assms idx_values)

section \<open>The enable bit\<close>

lemma rmw_keeps_bit0_Load: "rmw_keeps_bit0 c t \<Longrightarrow> rmw_keeps_bit0 c (Load i x # t)"
proof (cases t)
  case Nil
  then show ?thesis by simp
next
  case (Cons a t')
  assume "rmw_keeps_bit0 c t"
  with Cons show ?thesis by (cases a) auto
qed

lemma rmw_keeps_bit0_append:
  "rmw_keeps_bit0 c t1 \<Longrightarrow> rmw_keeps_bit0 c t2 \<Longrightarrow> rmw_keeps_bit0 c (t1 @ t2)"
proof (induction c t1 rule: rmw_keeps_bit0.induct)
  case (3 c i x)
  then show ?case by (simp add: rmw_keeps_bit0_Load)
qed auto

lemma en_latched_load:
  "en_latched w \<Longrightarrow> bit (hw_load w r (idx MMDC_MADPCR0)) 0 = bit (r (idx MMDC_MADPCR0)) 0"
  by (simp add: en_latched_def)

lemma en_latched_store:
  "en_latched w \<Longrightarrow> bit (hw_store w i v r (idx MMDC_MADPCR0)) 0 =
     (if i = idx MMDC_MADPCR0 then bit v 0 else bit (r (idx MMDC_MADPCR0)) 0)"
  by (simp add: en_latched_def)

lemma en_latched_fields:
  "hw_store w' = hw_store w \<Longrightarrow> hw_load w' = hw_load w \<Longrightarrow> en_latched w' = en_latched w"
  by (simp add: en_latched_def)

lemma en_latched_ram: "en_latched (ram_window r)"
  by (simp add: en_latched_def ram_window_def)

lemma armed_read:
  "armed w \<Longrightarrow>
     armed (snd (reg_read w i)) \<and> (i = idx MMDC_MADPCR0 \<longrightarrow> bit (fst (reg_read w i)) 0)"
  by (simp add: armed_def en_latched_load en_latched_fields [of "snd (reg_read w i)" w])

lemma armed_write: "en_latched w \<Longrightarrow> bit v 0 \<Longrightarrow> armed (reg_write w (idx MMDC_MADPCR0) v)"
  by (simp add: armed_def en_latched_store en_latched_fields [of "reg_write w i v" w for i])

lemma start_block_armed:
  assumes "armed w"
  shows "armed (start_block w)"
proof -
  let ?c = "idx MMDC_MADPCR0"
  let ?w1 = "snd (reg_read w ?c)"
  let ?w2 = "reg_write ?w1 ?c (fst (reg_read w ?c) OR (MADPCR0_DBG_RST OR MADPCR0_CYC_OVF))"
  let ?w3 = "snd (reg_read ?w2 ?c)"
  have a1: "armed ?w1" "bit (fst (reg_read w ?c)) 0"
    using armed_read [OF assms, of ?c] by simp_all
  then have a2: "armed ?w2"
    by (intro armed_write) (simp_all add: armed_def bit_or_iff)
  have a3: "armed ?w3" "bit (fst (reg_read ?w2 ?c)) 0"
    using armed_read [OF a2, of ?c] by simp_all
  have "bit (fst (reg_read ?w2 ?c) AND NOT (MADPCR0_DBG_RST OR MADPCR0_PRF_FRZ)) 0"
    using a3(2) by (simp add: bit_and_iff bit_not_iff bit_or_iff bit_values)
  with a3(1) have "armed (reg_write ?w3 ?c
      (fst (reg_read ?w2 ?c) AND NOT (MADPCR0_DBG_RST OR MADPCR0_PRF_FRZ)))"
    by (intro armed_write) (simp_all add: armed_def)
  then show ?thesis by (simp add: start_block_def reg_or_alt reg_and_alt Let_def)
qed

lemma start_block_rmw:
  "\<exists>t. trace (start_block w) = trace w @ t \<and> rmw_keeps_bit0 (idx MMDC_MADPCR0) t"
proof -
  from start_block_trace [of w] obtain x y where
    t: "trace (start_block w) = trace w @
      [Load (idx MMDC_MADPCR0) x,
       Store (idx MMDC_MADPCR0) (x OR (MADPCR0_DBG_RST OR MADPCR0_CYC_OVF)),
       Load (idx MMDC_MADPCR0) y,
       Store (idx MMDC_MADPCR0) (y AND NOT (MADPCR0_DBG_RST OR MADPCR0_PRF_FRZ))]"
    by blast
  have "rmw_keeps_bit0 (idx MMDC_MADPCR0)
      [Load (idx MMDC_MADPCR0) x,
       Store (idx MMDC_MADPCR0) (x OR (MADPCR0_DBG_RST OR MADPCR0_CYC_OVF)),
       Load (idx MMDC_MADPCR0) y,
       Store (idx MMDC_MADPCR0) (y AND NOT (MADPCR0_DBG_RST OR MADPCR0_PRF_FRZ))]"
    by (simp add: bit_and_iff bit_not_iff bit_or_iff bit_values)
  with t show ?thesis by blast
qed

lemma stop_block_armed:
  assumes "armed w"
  shows "armed (snd (snd (stop_block w)))"
proof -
  let ?c = "idx MMDC_MADPCR0"
  let ?w1 = "snd (reg_read w ?c)"
  let ?w2 = "reg_write ?w1 ?c (fst (reg_read w ?c) OR MADPCR0_PRF_FRZ)"
  have a1: "armed ?w1" "bit (fst (reg_read w ?c)) 0"
    using armed_read [OF assms, of ?c] by simp_all
  then have a2: "armed ?w2"
    by (intro armed_write) (simp_all add: armed_def bit_or_iff)
  have rd: "armed (snd (reg_read u i))" if "armed u" for u i
    using armed_read [OF that] by simp
  show ?thesis
    unfolding stop_block_def mmdc_read_alt reg_or_alt Let_def snd_conv
    by (intro rd a2)
qed

lemma stop_block_rmw:
  "\<exists>t. trace (snd (snd (stop_block w))) = trace w @ t \<and> rmw_keeps_bit0 (idx MMDC_MADPCR0) t"
proof -
  from stop_block_trace [of w] obtain x y c b ra wa rb wb where
    t: "trace (snd (snd (stop_block w))) = trace w @
       [Load (idx MMDC_MADPCR0) x, Store (idx MMDC_MADPCR0) (x OR MADPCR0_PRF_FRZ),
        Load (idx MMDC_MADPCR0) y,
        Load (idx MMDC_MADPSR0) c, Load (idx MMDC_MADPSR1) b, Load (idx MMDC_MADPSR2) ra,
        Load (idx MMDC_MADPSR3) wa, Load (idx MMDC_MADPSR4) rb, Load (idx MMDC_MADPSR5) wb]"
    by blast
  have "rmw_keeps_bit0 (idx MMDC_MADPCR0)
       [Load (idx MMDC_MADPCR0) x, Store (idx MMDC_MADPCR0) (x OR MADPCR0_PRF_FRZ),
        Load (idx MMDC_MADPCR0) y,
        Load (idx MMDC_MADPSR0) c, Load (idx MMDC_MADPSR1) b, Load (idx MMDC_MADPSR2) ra,
        Load (idx MMDC_MADPSR3) wa, Load (idx MMDC_MADPSR4) rb, Load (idx MMDC_MADPSR5) wb]"
    by (simp add: bit_or_iff bit_values)
  with t show ?thesis by blast
qed

lemma run_op_mmdc0:
  assumes "mmdc0 s = Some w" and "armed w"
  shows "\<exists>w' t. mmdc0 (run_op x s) = Some w' \<and> armed w' \<and> trace w' = trace w @ t \<and>
           rmw_keeps_bit0 (idx MMDC_MADPCR0) t"
proof (cases x)
  case Start
  with assms start_block_armed [of w] start_block_rmw [of w] show ?thesis
    by (auto simp: perf_start_mmdc)
next
  case Stop
  with assms stop_block_armed [of w] stop_block_rmw [of w] perf_stop_mmdc0 [of s w]
  show ?thesis by auto
qed

lemma run_op_mmdc1:
  assumes "mmdc1 s = Some w" and "armed w"
  shows "\<exists>w' t. mmdc1 (run_op x s) = Some w' \<and> armed w' \<and> trace w' = trace w @ t \<and>
           rmw_keeps_bit0 (idx MMDC_MADPCR0) t"
proof (cases x)
  case Start
  with assms start_block_armed [of w] start_block_rmw [of w] show ?thesis
    by (auto simp: perf_start_mmdc)
next
  case Stop
  with assms stop_block_armed [of w] stop_block_rmw [of w] perf_stop_mmdc1 [of s w]
  show ?thesis by auto
qed

lemma run_ops_mmdc0:
  "mmdc0 s = Some w \<Longrightarrow> armed w \<Longrightarrow>
     \<exists>w' t. mmdc0 (run_ops ops s) = Some w' \<and> armed w' \<and> trace w' = trace w @ t \<and>
           rmw_keeps_bit0 (idx MMDC_MADPCR0) t"
proof (induction ops arbitrary: s w)
  case Nil
  then show ?case by simp
next
  case (Cons x xs)
  from run_op_mmdc0 [OF Cons.prems, of x] obtain w1 t1 where
    1: "mmdc0 (run_op x s) = Some w1" "armed w1" "trace w1 = trace w @ t1"
       "rmw_keeps_bit0 (idx MMDC_MADPCR0) t1"
    by blast
  from Cons.IH [OF 1(1,2)] obtain w2 t2 where
    2: "mmdc0 (run_ops xs (run_op x s)) = Some w2" "armed w2" "trace w2 = trace w1 @ t2"
       "rmw_keeps_bit0 (idx MMDC_MADPCR0) t2"
    by blast
  from 1 2 have "trace w2 = trace w @ (t1 @ t2)" "rmw_keeps_bit0 (idx MMDC_MADPCR0) (t1 @ t2)"
    by (simp_all add: rmw_keeps_bit0_append)
  with 2 show ?case by auto
qed

lemma run_ops_mmdc1:
  "mmdc1 s = Some w \<Longrightarrow> armed w \<Longrightarrow>
     \<exists>w' t. mmdc1 (run_ops ops s) = Some w' \<and> armed w' \<and> trace w' = trace w @ t \<and>
           rmw_keeps_bit0 (idx MMDC_MADPCR0) t"
proof (induction ops arbitrary: s w)
  case Nil
  then show ?case by simp
next
  case (Cons x xs)
  from run_op_mmdc1 [OF Cons.prems, of x] obtain w1 t1 where
    1: "mmdc1 (run_op x s) = Some w1" "armed w1" "trace w1 = trace w @ t1"
       "rmw_keeps_bit0 (idx MMDC_MADPCR0) t1"
    by blast
  from Cons.IH [OF 1(1,2)] obtain w2 t2 where
    2: "mmdc1 (run_ops xs (run_op x s)) = Some w2" "armed w2" "trace w2 = trace w1 @ t2"
       "rmw_keeps_bit0 (idx MMDC_MADPCR0) t2"
    by blast
  from 1 2 have "trace w2 = trace w @ (t1 @ t2)" "rmw_keeps_bit0 (idx MMDC_MADPCR0) (t1 @ t2)"
    by (simp_all add: rmw_keeps_bit0_append)
  with 2 show ?case by auto
qed

lemma mmdc_init_armed:
  assumes "mmap sys fd base = Some w" and "en_latched w"
  shows "\<exists>a. mmdc_init sys s fd base = Some a \<and> armed a"
proof -
  have "armed (reg_write (reg_write u (idx MMDC_MADPCR0) (MADPCR0_DBG_EN OR MADPCR0_PRF_FRZ))
                 (idx MMDC_MADPCR1) v)"
    if "en_latched u" for u v
    using that
    by (simp add: armed_def en_latched_store idx_neq bit_values bit_or_iff
        en_latched_fields [of "reg_write u' i' v'" u' for u' i' v'])
  moreover have "en_latched (reg_write (reg_write w i v) i' v')" for i v i' v'
    using assms(2) by (simp add: en_latched_fields [of "reg_write u' i' v'" u' for u' i' v'])
  ultimately show ?thesis using assms(1) by (simp add: mmdc_init_def Let_def)
qed

lemma perf_init_ok:
  assumes "dev_mem_fd sys \<noteq> - 1"
    and "mmap sys (dev_mem_fd sys) MMDC0_BASE = Some w0"
    and "mmap sys (dev_mem_fd sys) MMDC1_BASE = Some w1"
  shows "fst (perf_init sys s) = 0"
    and "mmdc0 (snd (perf_init sys s)) = mmdc_init sys s (dev_mem_fd sys) MMDC0_BASE"
    and "mmdc1 (snd (perf_init sys s)) = mmdc_init sys s (dev_mem_fd sys) MMDC1_BASE"
  using assms by (simp_all add: perf_init_def Let_def mmdc_init_def)

text \<open>
  C10. On a machine where both pages can be mapped and both devices latch the
  enable bit, \<^verbatim>\<open>perf_init\<close> succeeds and leaves the enable bit set in the
  control register of each controller; after any sequence of \<^verbatim>\<open>perf_start\<close> and
  \<^verbatim>\<open>perf_stop\<close> calls the bit is still set in both, and in the accesses made
  since arming every store to the control register directly follows a load of it
  and writes bit 0 as loaded.
\<close>

theorem enable_bit_kept:
  assumes "dev_mem_fd sys \<noteq> - 1"
    and "mmap sys (dev_mem_fd sys) MMDC0_BASE = Some w0" and "en_latched w0"
    and "mmap sys (dev_mem_fd sys) MMDC1_BASE = Some w1" and "en_latched w1"
  shows "\<exists>a0 a1 m0 m1 t0 t1.
     fst (perf_init sys s) = 0 \<and>
     mmdc0 (snd (perf_init sys s)) = Some a0 \<and> bit (regs a0 (idx MMDC_MADPCR0)) 0 \<and>
     mmdc1 (snd (perf_init sys s)) = Some a1 \<and> bit (regs a1 (idx MMDC_MADPCR0)) 0 \<and>
     mmdc0 (run_ops ops (snd (perf_init sys s))) = Some m0 \<and>
     bit (regs m0 (idx MMDC_MADPCR0)) 0 \<and>
     trace m0 = trace a0 @ t0 \<and> rmw_keeps_bit0 (idx MMDC_MADPCR0) t0 \<and>
     mmdc1 (run_ops ops (snd (perf_init sys s))) = Some m1 \<and>
     bit (regs m1 (idx MMDC_MADPCR0)) 0 \<and>
     trace m1 = trace a1 @ t1 \<and> rmw_keeps_bit0 (idx MMDC_MADPCR0) t1"
proof -
  let ?s = "snd (perf_init sys s)"
  note ok = perf_init_ok [OF assms(1,2,4), of s]
  from mmdc_init_armed [OF assms(2,3), of s] ok(2) obtain a0 where
    a0: "mmdc0 ?s = Some a0" "armed a0" by auto
  from mmdc_init_armed [OF assms(4,5), of s] ok(3) obtain a1 where
    a1: "mmdc1 ?s = Some a1" "armed a1" by auto
  from run_ops_mmdc0 [OF a0, of ops] obtain m0 t0 where
    m0: "mmdc0 (run_ops ops ?s) = Some m0" "armed m0" "trace m0 = trace a0 @ t0"
      "rmw_keeps_bit0 (idx MMDC_MADPCR0) t0" by blast
  from run_ops_mmdc1 [OF a1, of ops] obtain m1 t1 where
    m1: "mmdc1 (run_ops ops ?s) = Some m1" "armed m1" "trace m1 = trace a1 @ t1"
      "rmw_keeps_bit0 (idx MMDC_MADPCR0) t1" by blast
  from ok(1) a0 a1 m0 m1 show ?thesis
    unfolding armed_def by blast
qed

theorem enable_bit_kept_witness:
  "\<exists>m0 m1.
     mmdc0 (run_ops [Start, Stop, Stop, Start, Start, Stop]
              (snd (perf_init two_controllers init_state))) = Some m0 \<and>
     bit (regs m0 (idx MMDC_MADPCR0)) 0 \<and>
     mmdc1 (run_ops [Start, Stop, Stop, Start, Start, Stop]
              (snd (perf_init two_controllers init_state))) = Some m1 \<and>
     bit (regs m1 (idx MMDC_MADPCR0)) 0"
proof -
  have fd: "dev_mem_fd two_controllers \<noteq> - 1"
    by (simp add: two_controllers_def)
  have m0: "mmap two_controllers (dev_mem_fd two_controllers) MMDC0_BASE =
      Some (ram_window sample_regs)"
    by (simp add: two_controllers_def)
  have m1: "mmap two_controllers (dev_mem_fd two_controllers) MMDC1_BASE =
      Some (ram_window sample_regs)"
    by (simp add: two_controllers_def)
  from enable_bit_kept [OF fd m0 en_latched_ram m1 en_latched_ram,
      of init_state "[Start, Stop, Stop, Start, Start, Stop]"]
  show ?thesis by blast
qed

section \<open>Stop without start\<close>

lemma perf_init_zero:
  assumes "perf_init sys s0 = (0, s)"
  shows "mmdc0 s \<noteq> None" and "mmdc1 s \<noteq> None"
  using assms by (auto simp: perf_init_def Let_def split: if_splits)

lemma two_controllers_init:
  "perf_init two_controllers init_state =
     (0, init_state\<lparr>
        mmdc0 := Some \<lparr>regs = sample_regs(idx MMDC_MADPCR0 := 5, idx MMDC_MADPCR1 := 0),
                       trace = [Store (idx MMDC_MADPCR0) 0, Store (idx MMDC_MADPCR0) 10,
                                Store (idx MMDC_MADPCR0) 5, Store (idx MMDC_MADPCR1) 0],
                       hw_store = (\<lambda>i v r. r(i := v)), hw_load = (\<lambda>r. r)\<rparr>,
        mmdc1 := Some \<lparr>regs = sample_regs(idx MMDC_MADPCR0 := 5, idx MMDC_MADPCR1 := 0),
                       trace = [Store (idx MMDC_MADPCR0) 0, Store (idx MMDC_MADPCR0) 10,
                                Store (idx MMDC_MADPCR0) 5, Store (idx MMDC_MADPCR1) 0],
                       hw_store = (\<lambda>i v r. r(i := v)), hw_load = (\<lambda>r. r)\<rparr>\<rparr>)"
  by (simp add: perf_init_def two_controllers_def init_state_def Let_def mmdc_init_def
      ram_window_def reg_write_def bit_values
      MADPCR1_PRF_AXI_ID_MASK_SHIFT_def MADPCR1_PRF_AXI_ID_SHIFT_def)

lemma two_controllers_stop:
  "mmdc0_end (perf_stop (snd (perf_init two_controllers init_state))) = sample_stats"
proof -
  let ?w = "\<lparr>regs = sample_regs(idx MMDC_MADPCR0 := 5, idx MMDC_MADPCR1 := 0),
             trace = [Store (idx MMDC_MADPCR0) 0, Store (idx MMDC_MADPCR0) 10,
                      Store (idx MMDC_MADPCR0) 5, Store (idx MMDC_MADPCR1) 0],
             hw_store = (\<lambda>i v r. r(i := v)), hw_load = (\<lambda>r. r)\<rparr>"
  have "mmdc0 (snd (perf_init two_controllers init_state)) = Some ?w"
    by (simp add: two_controllers_init)
  from perf_stop_mmdc0 [OF this]
  have "mmdc0_end (perf_stop (snd (perf_init two_controllers init_state))) =
      fst (snd (stop_block ?w))"
    by simp
  also have "\<dots> = sample_stats"
    by (simp add: stop_block_ram sample_stats_def sample_regs_def idx_values)
  finally show ?thesis .
qed

text \<open>
  C3, as the code has it. \<^verbatim>\<open>perf_stop\<close> keeps no record of whether
  \<^verbatim>\<open>perf_start\<close> has run and rejects nothing. Called in the state that a
  successful \<^verbatim>\<open>perf_init\<close> leaves, it does on the first controller what it
  always does: it sets the freeze bit by a load and a store, loads the control
  register again for the overflow flag, loads the six statistics registers, and
  stores what it loaded as the snapshot \<open>mmdc0_end\<close>.
\<close>

theorem stop_right_after_init:
  assumes "perf_init sys s0 = (0, s)"
  shows "\<exists>w w' x y c b ra wa rb wb.
     mmdc0 s = Some w \<and> mmdc0 (perf_stop s) = Some w' \<and>
     trace w' = trace w @
       [Load (idx MMDC_MADPCR0) x, Store (idx MMDC_MADPCR0) (x OR MADPCR0_PRF_FRZ),
        Load (idx MMDC_MADPCR0) y,
        Load (idx MMDC_MADPSR0) c, Load (idx MMDC_MADPSR1) b, Load (idx MMDC_MADPSR2) ra,
        Load (idx MMDC_MADPSR3) wa, Load (idx MMDC_MADPSR4) rb, Load (idx MMDC_MADPSR5) wb] \<and>
     mmdc0_end (perf_stop s) =
       \<lparr>cycles = c, busy_cycles = b, read_accesses = ra, write_accesses = wa,
        read_bytes = rb, write_bytes = wb\<rparr>"
proof -
  from perf_init_zero [OF assms] obtain w where w: "mmdc0 s = Some w" by auto
  from stop_block_trace [of w] perf_stop_mmdc0 [OF w] w show ?thesis
    by (metis (no_types, lifting))
qed

theorem stop_right_after_init_witness:
  "\<exists>w w' x y.
     mmdc0 (snd (perf_init two_controllers init_state)) = Some w \<and>
     mmdc0 (perf_stop (snd (perf_init two_controllers init_state))) = Some w' \<and>
     trace w' = trace w @
       [Load (idx MMDC_MADPCR0) x, Store (idx MMDC_MADPCR0) (x OR MADPCR0_PRF_FRZ),
        Load (idx MMDC_MADPCR0) y,
        Load (idx MMDC_MADPSR0) 100000000, Load (idx MMDC_MADPSR1) 25000000,
        Load (idx MMDC_MADPSR2) 10, Load (idx MMDC_MADPSR3) 5,
        Load (idx MMDC_MADPSR4) 640, Load (idx MMDC_MADPSR5) 320] \<and>
     mmdc0_end (perf_stop (snd (perf_init two_controllers init_state))) = sample_stats"
proof -
  have init: "perf_init two_controllers init_state =
      (0, snd (perf_init two_controllers init_state))"
    by (simp add: two_controllers_init)
  from stop_right_after_init [OF init] two_controllers_stop show ?thesis
    by (auto simp: sample_stats_def)
qed

text \<open>On the machine \<open>two_controllers\<close>, whose statistics registers hold
  \<open>sample_stats\<close>: the snapshot is zero after \<^verbatim>\<open>perf_init\<close>, and a
  \<^verbatim>\<open>perf_stop\<close> with no \<^verbatim>\<open>perf_start\<close> before it replaces it.\<close>

theorem stop_right_after_init_counterexample:
  "mmdc0_end (snd (perf_init two_controllers init_state)) = zero_stats \<and>
   mmdc0_end (perf_stop (snd (perf_init two_controllers init_state))) = sample_stats \<and>
   sample_stats \<noteq> zero_stats \<and>
   perf_stop (snd (perf_init two_controllers init_state)) \<noteq>
     snd (perf_init two_controllers init_state)"
proof -
  have "mmdc0_end (snd (perf_init two_controllers init_state)) = mmdc0_end init_state"
    by (simp add: two_controllers_init)
  then have "mmdc0_end (snd (perf_init two_controllers init_state)) = zero_stats"
    by (simp add: init_state_def)
  moreover have "sample_stats \<noteq> zero_stats"
    by (simp add: sample_stats_def zero_stats_def)
  ultimately show ?thesis
    using two_controllers_stop by force
qed

section \<open>A controller that is not there\<close>

lemma perf_print_total:
  "\<exists>s'. perf_print abi s = Some s' \<and> mmdc0 s' = mmdc0 s \<and> mmdc1 s' = mmdc1 s \<and>
        mmdc0_end s' = mmdc0_end s \<and> mmdc1_end s' = mmdc1_end s"
proof -
  obtain l0 where l0: "mmdc_print abi (pretty s) ''MMDC0'' (mmdc0_end s) = Some l0"
    using mmdc_print_Some by blast
  obtain l1 where l1: "mmdc_print abi (pretty s) ''MMDC1'' (mmdc1_end s) = Some l1"
    using mmdc_print_Some by blast
  show ?thesis
    by (simp add: perf_print_def l0 l1 Let_def)
qed

lemma perf_print_first_only:
  assumes "mmdc0 s \<noteq> None" and "cycles (mmdc1_end s) = 0"
  shows "\<exists>line. mmdc_print abi (pretty s) ''MMDC0'' (mmdc0_end s) = Some line \<and>
           perf_print abi s = Some (printf ''\<newline>'' (printf line s))"
proof -
  obtain l0 where l0: "mmdc_print abi (pretty s) ''MMDC0'' (mmdc0_end s) = Some l0"
    using mmdc_print_Some by blast
  with assms show ?thesis
    by (simp add: perf_print_def Let_def)
qed

lemma round_mmdc1_absent:
  assumes "mmdc1 s = None"
  shows "\<exists>s'. perf_print abi (perf_stop (sleep (perf_start s))) = Some s' \<and>
           mmdc1 s' = None \<and> mmdc1_end s' = mmdc1_end s"
proof -
  let ?t = "perf_stop (sleep (perf_start s))"
  from assms have 1: "mmdc1 (perf_start s) = None" "mmdc1_end (perf_start s) = mmdc1_end s"
    by (simp_all add: perf_start_mmdc)
  then have 2: "mmdc1 ?t = None" "mmdc1_end ?t = mmdc1_end s"
    using perf_stop_none1 [of "perf_start s"] by (simp_all add: sleep_def)
  from perf_print_total [of abi ?t] 2 show ?thesis by auto
qed

lemma rounds_mmdc1_absent:
  "mmdc1 s = None \<Longrightarrow>
     \<exists>s'. rounds abi n s = Some s' \<and> mmdc1 s' = None \<and> mmdc1_end s' = mmdc1_end s"
proof (induction n arbitrary: s)
  case 0
  then show ?case by simp
next
  case (Suc n)
  from round_mmdc1_absent [OF Suc.prems, of abi] obtain s1 where
    s1: "perf_print abi (perf_stop (sleep (perf_start s))) = Some s1" "mmdc1 s1 = None"
      "mmdc1_end s1 = mmdc1_end s" by blast
  from Suc.IH [OF s1(2)] s1 show ?case by auto
qed

lemma perf_init_failure:
  assumes "dev_mem_fd sys = - 1 \<or> mmap sys (dev_mem_fd sys) MMDC0_BASE = None \<or>
           mmap sys (dev_mem_fd sys) MMDC1_BASE = None"
  shows "fst (perf_init sys s) = - 1"
  using assms by (auto simp: perf_init_def Let_def mmdc_init_def)

lemma first_controller_only_init:
  "perf_init first_controller_only init_state =
     (- 1, init_state\<lparr>
        mmdc0 := Some \<lparr>regs = sample_regs(idx MMDC_MADPCR0 := 5, idx MMDC_MADPCR1 := 0),
                       trace = [Store (idx MMDC_MADPCR0) 0, Store (idx MMDC_MADPCR0) 10,
                                Store (idx MMDC_MADPCR0) 5, Store (idx MMDC_MADPCR1) 0],
                       hw_store = (\<lambda>i v r. r(i := v)), hw_load = (\<lambda>r. r)\<rparr>\<rparr>)"
  by (simp add: perf_init_def first_controller_only_def init_state_def Let_def mmdc_init_def
      ram_window_def reg_write_def bit_values MMDC0_BASE_def MMDC1_BASE_def
      MADPCR1_PRF_AXI_ID_MASK_SHIFT_def MADPCR1_PRF_AXI_ID_SHIFT_def)

text \<open>
  C1, as the code has it. A controller whose pointer is null is left alone by
  \<^verbatim>\<open>perf_start\<close> and \<^verbatim>\<open>perf_stop\<close>: the pointer stays null and its snapshot is
  unchanged, also over any number of rounds of the sampling loop; with both
  pointers null the two functions change nothing at all. \<^verbatim>\<open>perf_print\<close> prints
  nothing when the first pointer is null, and prints the MMDC0 field alone,
  without an MMDC1 field, when the cycle count of the second snapshot is zero.
  But there is no single-controller mode: \<^verbatim>\<open>perf_init\<close> returns \<open>-1\<close> as soon
  as \<^verbatim>\<open>/dev/mem\<close> cannot be opened or either page cannot be mapped, and
  \<^verbatim>\<open>main\<close> then exits with status 1 before the first round.
\<close>

theorem absent_controller:
  "(mmdc1 s = None \<longrightarrow>
      mmdc1 (perf_start s) = None \<and> mmdc1_end (perf_start s) = mmdc1_end s \<and>
      mmdc1 (perf_stop s) = None \<and> mmdc1_end (perf_stop s) = mmdc1_end s \<and>
      (\<exists>s'. rounds abi n s = Some s' \<and> mmdc1 s' = None \<and> mmdc1_end s' = mmdc1_end s)) \<and>
   (mmdc0 s = None \<longrightarrow>
      mmdc0 (perf_start s) = None \<and> mmdc0_end (perf_start s) = mmdc0_end s \<and>
      mmdc0 (perf_stop s) = None \<and> mmdc0_end (perf_stop s) = mmdc0_end s \<and>
      perf_print abi s = Some s) \<and>
   (mmdc0 s = None \<and> mmdc1 s = None \<longrightarrow> perf_start s = s \<and> perf_stop s = s) \<and>
   (mmdc0 s \<noteq> None \<and> cycles (mmdc1_end s) = 0 \<longrightarrow>
      (\<exists>line. mmdc_print abi (pretty s) ''MMDC0'' (mmdc0_end s) = Some line \<and>
              perf_print abi s = Some (printf ''\<newline>'' (printf line s)))) \<and>
   (dev_mem_fd sys = - 1 \<or> mmap sys (dev_mem_fd sys) MMDC0_BASE = None \<or>
    mmap sys (dev_mem_fd sys) MMDC1_BASE = None \<longrightarrow>
      fst (perf_init sys s) = - 1 \<and>
      main_from_init sys abi n s = Exit 1 (snd (perf_init sys s)))"
proof (intro conjI impI)
  assume a: "mmdc1 s = None"
  then show "mmdc1 (perf_start s) = None" "mmdc1_end (perf_start s) = mmdc1_end s"
    by (simp_all add: perf_start_mmdc)
  from a show "mmdc1 (perf_stop s) = None" "mmdc1_end (perf_stop s) = mmdc1_end s"
    using perf_stop_none1 [of s] by simp_all
  from a show "\<exists>s'. rounds abi n s = Some s' \<and> mmdc1 s' = None \<and> mmdc1_end s' = mmdc1_end s"
    by (rule rounds_mmdc1_absent)
next
  assume a: "mmdc0 s = None"
  then show "mmdc0 (perf_start s) = None" "mmdc0_end (perf_start s) = mmdc0_end s"
    by (simp_all add: perf_start_mmdc)
  from a show "mmdc0 (perf_stop s) = None" "mmdc0_end (perf_stop s) = mmdc0_end s"
    using perf_stop_none0 [of s] by simp_all
  from a show "perf_print abi s = Some s"
    by (simp add: perf_print_def)
next
  assume "mmdc0 s = None \<and> mmdc1 s = None"
  then show "perf_start s = s" "perf_stop s = s"
    by (simp_all add: perf_start_def perf_stop_def)
next
  assume "mmdc0 s \<noteq> None \<and> cycles (mmdc1_end s) = 0"
  then show "\<exists>line. mmdc_print abi (pretty s) ''MMDC0'' (mmdc0_end s) = Some line \<and>
              perf_print abi s = Some (printf ''\<newline>'' (printf line s))"
    using perf_print_first_only [of s abi] by simp
next
  assume a: "dev_mem_fd sys = - 1 \<or> mmap sys (dev_mem_fd sys) MMDC0_BASE = None \<or>
    mmap sys (dev_mem_fd sys) MMDC1_BASE = None"
  then show f: "fst (perf_init sys s) = - 1" by (rule perf_init_failure)
  then show "main_from_init sys abi n s = Exit 1 (snd (perf_init sys s))"
    by (simp add: main_from_init_def split_beta)
qed

theorem absent_controller_witness:
  "mmdc1 (perf_start (snd (perf_init first_controller_only init_state))) = None \<and>
   mmdc1 (perf_stop (snd (perf_init first_controller_only init_state))) = None \<and>
   mmdc1_end (perf_stop (snd (perf_init first_controller_only init_state))) = zero_stats \<and>
   (\<exists>line. perf_print ILP32 (snd (perf_init first_controller_only init_state)) =
      Some (printf ''\<newline>''
             (printf line (snd (perf_init first_controller_only init_state))))) \<and>
   perf_start init_state = init_state \<and> perf_stop init_state = init_state \<and>
   perf_print ILP32 init_state = Some init_state \<and>
   fst (perf_init first_controller_only init_state) = - 1 \<and>
   main_from_init first_controller_only ILP32 1 init_state =
     Exit 1 (snd (perf_init first_controller_only init_state))"
proof -
  let ?s1 = "snd (perf_init first_controller_only init_state)"
  have i: "mmdc0 init_state = None" "mmdc1 init_state = None" "mmdc1_end init_state = zero_stats"
    by (simp_all add: init_state_def)
  have "mmdc1 ?s1 = mmdc1 init_state" "mmdc1_end ?s1 = mmdc1_end init_state"
    by (simp_all add: first_controller_only_init)
  with i have s1: "mmdc1 ?s1 = None" "mmdc1_end ?s1 = zero_stats" "cycles (mmdc1_end ?s1) = 0"
    by (simp_all add: zero_stats_def)
  have m0: "mmdc0 ?s1 \<noteq> None"
    by (simp add: first_controller_only_init)
  have no: "mmap first_controller_only (dev_mem_fd first_controller_only) MMDC1_BASE = None"
    by (simp add: first_controller_only_def MMDC0_BASE_def MMDC1_BASE_def)
  note at_s1 = absent_controller [where s = ?s1 and abi = ILP32 and n = 1
      and sys = first_controller_only]
  note at_init = absent_controller [where s = init_state and abi = ILP32 and n = 1
      and sys = first_controller_only]
  from at_s1 s1 have a: "mmdc1 (perf_start ?s1) = None" "mmdc1 (perf_stop ?s1) = None"
    "mmdc1_end (perf_stop ?s1) = zero_stats"
    by simp_all
  from at_s1 s1 m0 have b: "\<exists>line. perf_print ILP32 ?s1 =
      Some (printf ''\<newline>'' (printf line ?s1))"
    by blast
  from at_init i have c: "perf_start init_state = init_state" "perf_stop init_state = init_state"
    "perf_print ILP32 init_state = Some init_state"
    by simp_all
  from at_init no have d: "fst (perf_init first_controller_only init_state) = - 1"
    "main_from_init first_controller_only ILP32 1 init_state = Exit 1 ?s1"
    by simp_all
  from a b c d show ?thesis by simp
qed

text \<open>On the machine \<open>first_controller_only\<close> the first page is mapped and armed,
  the second is not, and the program does not get past initialisation.\<close>

theorem absent_controller_counterexample:
  "mmdc0 (snd (perf_init first_controller_only init_state)) \<noteq> None \<and>
   mmdc1 (snd (perf_init first_controller_only init_state)) = None \<and>
   fst (perf_init first_controller_only init_state) = - 1 \<and>
   main_from_init first_controller_only ILP32 1 init_state =
     Exit 1 (snd (perf_init first_controller_only init_state))"
proof -
  have "mmdc1 (snd (perf_init first_controller_only init_state)) = mmdc1 init_state"
    by (simp add: first_controller_only_init)
  then have "mmdc1 (snd (perf_init first_controller_only init_state)) = None"
    by (simp add: init_state_def)
  then show ?thesis
    by (simp add: first_controller_only_init main_from_init_def)
qed

end
